theory Spec2Isabelle
  imports Complex_Main
begin

section \<open>Python values and errors\<close>

text \<open>
  Python exceptions are values of \<open>py_error\<close>; a computation that may raise returns
  \<open>py_error + 'a\<close> with \<open>Inl\<close> for the exception. Python floats (bitscores, identities,
  coverages) are the real numbers they denote. The one float the code computes and then
  compares with, the lower bound of the bitscore window, is rounded as the machine rounds
  it (section ``Python floats'').
\<close>

datatype py_error =
  KeyError | IndexError | ValueError | AttributeError | ZeroDivisionError | LoadFailed

definition py_truediv :: "real \<Rightarrow> real \<Rightarrow> py_error + real" where
  "py_truediv a b = (if b = 0 then Inl ZeroDivisionError else Inr (a / b))"

section \<open>Python floats\<close>

text \<open>
  A Python float is an IEEE 754 binary64 number: 53 significant bits, normal exponents
  from -1022 to 1023, and below that the fixed spacing \<open>2 ^ -1074\<close>. An arithmetic
  operation returns the exact result rounded to the nearest such number, a tie going to
  the one with the even significand. \<open>round_double\<close> is that rounding on the reals:
  \<open>exponent_of x\<close> is the integer \<open>e\<close> with \<open>2 ^ e \<le> \<bar>x\<bar> < 2 ^ (e + 1)\<close>, the spacing of
  the floats around \<open>x\<close> is \<open>2 ^ (max e (-1022) - 52)\<close>, and \<open>x\<close> goes to the nearest multiple
  of it. Above the largest float the exponent is left unbounded; where the machine gives
  infinity the value here is as large as \<open>2 ^ 1024\<close>, and both are above every float.
  A float literal of the configuration (\<^verbatim>\<open>0.03\<close>) is \<open>round_double (3 / 100)\<close>.
\<close>

fun bit_length :: "nat \<Rightarrow> nat" where
  "bit_length n = (if n = 0 then 0 else Suc (bit_length (n div 2)))"

declare bit_length.simps [simp del]

definition exponent_of :: "real \<Rightarrow> int" where
  "exponent_of x =
     (if 1 \<le> \<bar>x\<bar> then int (bit_length (nat \<lfloor>\<bar>x\<bar>\<rfloor>)) - 1
      else - int (bit_length (nat \<lceil>1 / \<bar>x\<bar>\<rceil> - 1)))"

definition pow2 :: "int \<Rightarrow> real" where
  "pow2 k = (if 0 \<le> k then 2 ^ nat k else 1 / 2 ^ nat (- k))"

definition round_half_even :: "real \<Rightarrow> int" where
  "round_half_even r =
     (if r - of_int \<lfloor>r\<rfloor> < 1 / 2 then \<lfloor>r\<rfloor>
      else if r - of_int \<lfloor>r\<rfloor> > 1 / 2 then \<lfloor>r\<rfloor> + 1
      else if even \<lfloor>r\<rfloor> then \<lfloor>r\<rfloor> else \<lfloor>r\<rfloor> + 1)"

definition round_double :: "real \<Rightarrow> real" where
  "round_double x =
     (if x = 0 then 0
      else (let quantum = pow2 (max (exponent_of x) (- 1022) - 52)
            in quantum * of_int (round_half_even (x / quantum))))"

text \<open>Float subtraction and multiplication: the exact result, rounded.\<close>

definition float_sub :: "real \<Rightarrow> real \<Rightarrow> real" where
  "float_sub x y = round_double (x - y)"

definition float_mul :: "real \<Rightarrow> real \<Rightarrow> real" where
  "float_mul x y = round_double (x * y)"

section \<open>Coverage normalisation (protein pipeline)\<close>

text \<open>
  \<^verbatim>\<open>get_protein_score(average_coverage, coverage)\<close>: the result starts as the coverage
  and is divided by the average coverage only when that is positive.
\<close>

definition get_protein_score :: "real \<Rightarrow> real \<Rightarrow> py_error + real" where
  "get_protein_score average_coverage coverage =
     (if average_coverage > 0 then py_truediv coverage average_coverage else Inr coverage)"

text \<open>
  The head of \<^verbatim>\<open>parse_background_output\<close>: the coverage dictionary (its items, in
  insertion order) is summed and divided by its size when it is not empty; otherwise the
  average is 0.0.
\<close>

definition average_coverage_of :: "(string \<times> real) list \<Rightarrow> py_error + real" where
  "average_coverage_of coverage_data =
     (if coverage_data \<noteq> []
      then py_truediv (sum_list (map snd coverage_data)) (real (length coverage_data))
      else Inr 0)"

section \<open>Strings\<close>

text \<open>
  \<^verbatim>\<open>s.split(sep)\<close> for a non-empty separator: the string is cut at every occurrence of
  the separator, scanning from the left; \<^verbatim>\<open>sep.join(tokens)\<close>; \<^verbatim>\<open>s.startswith(p)\<close>,
  \<^verbatim>\<open>s.endswith(p)\<close> and \<^verbatim>\<open>s.rstrip(chars)\<close>.
\<close>

definition startswith :: "string \<Rightarrow> string \<Rightarrow> bool" where
  "startswith s p = (take (length p) s = p)"

definition endswith :: "string \<Rightarrow> string \<Rightarrow> bool" where
  "endswith s p = (length p \<le> length s \<and> drop (length s - length p) s = p)"

fun split_from :: "string \<Rightarrow> string \<Rightarrow> string \<Rightarrow> string list" where
  "split_from sep cur [] = [cur]"
| "split_from sep cur (c # cs) =
     (if sep \<noteq> [] \<and> startswith (c # cs) sep
      then cur # split_from sep [] (drop (length sep - 1) cs)
      else split_from sep (cur @ [c]) cs)"

definition split :: "string \<Rightarrow> string \<Rightarrow> string list" where
  "split s sep = split_from sep [] s"

fun join :: "string \<Rightarrow> string list \<Rightarrow> string" where
  "join sep [] = []"
| "join sep [t] = t"
| "join sep (t # ts) = t @ sep @ join sep ts"

definition rstrip :: "string \<Rightarrow> string \<Rightarrow> string" where
  "rstrip s chars = rev (dropWhile (\<lambda>c. c \<in> set chars) (rev s))"

section \<open>The taxonomy tree (TaxonomyData)\<close>

text \<open>
  \<^verbatim>\<open>self.names\<close> and \<^verbatim>\<open>self.nodes\<close> are \<^verbatim>\<open>defaultdict(dict)\<close>: a dictionary from
  taxonomy id to a dictionary of fields (\<^verbatim>\<open>'name'\<close>; \<^verbatim>\<open>'parent'\<close>, \<^verbatim>\<open>'rank'\<close>).
  Subscripting a \<^verbatim>\<open>defaultdict\<close> with a key it does not hold stores an empty
  dictionary under that key before the inner subscript raises \<^verbatim>\<open>KeyError\<close>; the
  membership test \<^verbatim>\<open>in\<close> stores nothing.
\<close>

type_synonym ddict = "string \<rightharpoonup> (string \<rightharpoonup> string)"

record taxonomy_data =
  names :: ddict
  nodes :: ddict

text \<open>
  Modelled from the spec: \<^verbatim>\<open>Fama.const\<close> is not among the sources. The reserved ids are
  the literals the taxonomy code itself compares with (\<^verbatim>\<open>'1'\<close> for the root in
  \<^verbatim>\<open>get_upper_level_taxon\<close> and the lineage queries, \<^verbatim>\<open>'0'\<close> for the unknown taxon in
  the lineage queries). The list \<^verbatim>\<open>RANKS\<close> is a parameter of the functions that use it.
\<close>

definition ROOT_TAXONOMY_ID :: string where
  "ROOT_TAXONOMY_ID = ''1''"

definition UNKNOWN_TAXONOMY_ID :: string where
  "UNKNOWN_TAXONOMY_ID = ''0''"

text \<open>\<^verbatim>\<open>d[k][f]\<close> on a \<^verbatim>\<open>defaultdict(dict)\<close>: the value or the error, and the dictionary after.\<close>

definition dd_get :: "ddict \<Rightarrow> string \<Rightarrow> string \<Rightarrow> (py_error + string) \<times> ddict" where
  "dd_get d k f =
     (case d k of
        None \<Rightarrow> (Inl KeyError, d(k \<mapsto> Map.empty))
      | Some entry \<Rightarrow>
          (case entry f of None \<Rightarrow> (Inl KeyError, d) | Some v \<Rightarrow> (Inr v, d)))"

text \<open>\<^verbatim>\<open>d[k][f] = v\<close> on a \<^verbatim>\<open>defaultdict(dict)\<close>.\<close>

definition dd_set :: "ddict \<Rightarrow> string \<Rightarrow> string \<Rightarrow> string \<Rightarrow> ddict" where
  "dd_set d k f v = d(k \<mapsto> (case d k of None \<Rightarrow> Map.empty | Some entry \<Rightarrow> entry)(f \<mapsto> v))"

definition nodes_get ::
  "string \<Rightarrow> string \<Rightarrow> taxonomy_data \<Rightarrow> (py_error + string) \<times> taxonomy_data" where
  "nodes_get k f s = (case dd_get (nodes s) k f of (r, d) \<Rightarrow> (r, s\<lparr>nodes := d\<rparr>))"

definition names_get ::
  "string \<Rightarrow> string \<Rightarrow> taxonomy_data \<Rightarrow> (py_error + string) \<times> taxonomy_data" where
  "names_get k f s = (case dd_get (names s) k f of (r, d) \<Rightarrow> (r, s\<lparr>names := d\<rparr>))"

text \<open>
  A Python set is a list without repetitions; \<^verbatim>\<open>set(s)\<close> of a string is the set of its
  one-character strings; \<^verbatim>\<open>pop()\<close> raises \<^verbatim>\<open>KeyError\<close> on the empty set (it is only
  reached on sets of at most one element).
\<close>

definition set_add :: "'a list \<Rightarrow> 'a \<Rightarrow> 'a list" where
  "set_add xs x = (if x \<in> set xs then xs else xs @ [x])"

definition set_of_string :: "string \<Rightarrow> string list" where
  "set_of_string s = remdups (map (\<lambda>c. [c]) s)"

definition set_pop :: "'a list \<Rightarrow> py_error + 'a" where
  "set_pop xs = (case xs of [] \<Rightarrow> Inl KeyError | x # _ \<Rightarrow> Inr x)"

text \<open>
  Sequencing of taxonomy reads: an error ends the computation with the dictionaries as
  they are at that point; \<open>None\<close> is a loop that does not return.
\<close>

definition tx_bind ::
  "(py_error + 'a) \<times> taxonomy_data \<Rightarrow>
   ('a \<Rightarrow> taxonomy_data \<Rightarrow> ((py_error + 'b) \<times> taxonomy_data) option) \<Rightarrow>
   ((py_error + 'b) \<times> taxonomy_data) option" where
  "tx_bind r f = (case r of (Inl e, s') \<Rightarrow> Some (Inl e, s') | (Inr v, s') \<Rightarrow> f v s')"

definition tx_then ::
  "((py_error + 'a) \<times> taxonomy_data) option \<Rightarrow>
   ('a \<Rightarrow> taxonomy_data \<Rightarrow> ((py_error + 'b) \<times> taxonomy_data) option) \<Rightarrow>
   ((py_error + 'b) \<times> taxonomy_data) option" where
  "tx_then m f = (case m of None \<Rightarrow> None | Some r \<Rightarrow> tx_bind r f)"

lemma tx_bind_mono [partial_function_mono]:
  assumes "\<And>v s. mono_option (\<lambda>f. C f v s)"
  shows "mono_option (\<lambda>f. tx_bind r (C f))"
proof (cases r)
  case (Pair a s')
  then show ?thesis
    by (cases a) (simp_all add: tx_bind_def assms option.const_mono)
qed

subsection \<open>get\_lca\<close>

text \<open>
  The \<^verbatim>\<open>while\<close> loop that builds one lineage. It may run forever on a cyclic parent
  relation, so it is a partial function: \<open>None\<close> is "does not return". The three reads of
  \<^verbatim>\<open>self.nodes[parent_id]['parent']\<close> in one round are one read here: after the first has
  succeeded the others return the same value and change nothing.
\<close>

partial_function (option) lineage_loop ::
  "string \<Rightarrow> string list \<Rightarrow> nat \<Rightarrow> taxonomy_data \<Rightarrow>
     ((py_error + (string list \<times> nat)) \<times> taxonomy_data) option" where
  "lineage_loop parent_id lineage depth s =
     tx_bind (nodes_get parent_id ''parent'' s) (\<lambda>p s'.
       if p \<noteq> ROOT_TAXONOMY_ID
       then (let parent_id' = (if names s' p \<noteq> None then p else UNKNOWN_TAXONOMY_ID)
             in lineage_loop parent_id' (parent_id' # lineage) (depth + 1) s')
       else Some (Inr (lineage, depth), s'))"

text \<open>The first \<^verbatim>\<open>for\<close> loop: the lineage of every id that is a key of \<^verbatim>\<open>nodes\<close>, and the
  least depth. Ids that are not keys (the empty string among them) are skipped.\<close>

fun lineages_loop ::
  "string list \<Rightarrow> (string \<rightharpoonup> string list) \<Rightarrow> nat \<Rightarrow> taxonomy_data \<Rightarrow>
     ((py_error + ((string \<rightharpoonup> string list) \<times> nat)) \<times> taxonomy_data) option" where
  "lineages_loop [] taxonomic_lineages min_depth s = Some (Inr (taxonomic_lineages, min_depth), s)"
| "lineages_loop (taxonomy_id # rest) taxonomic_lineages min_depth s =
     (if nodes s taxonomy_id \<noteq> None
      then tx_bind (nodes_get taxonomy_id ''parent'' s) (\<lambda>parent_id s'.
           tx_then (lineage_loop parent_id [parent_id, taxonomy_id] 1 s') (\<lambda>(lineage, depth) s''.
             lineages_loop rest (taxonomic_lineages(taxonomy_id \<mapsto> lineage))
               (if depth < min_depth then depth else min_depth) s''))
      else lineages_loop rest taxonomic_lineages min_depth s)"

text \<open>The inner \<^verbatim>\<open>for\<close> loop of the second phase: the set of lineage entries at level \<open>i\<close>.\<close>

fun level_ids ::
  "taxonomy_data \<Rightarrow> (string \<rightharpoonup> string list) \<Rightarrow> nat \<Rightarrow> string list \<Rightarrow> string list \<Rightarrow>
     py_error + string list" where
  "level_ids s taxonomic_lineages i [] id_set = Inr id_set"
| "level_ids s taxonomic_lineages i (taxonomy_id # rest) id_set =
     (if nodes s taxonomy_id \<noteq> None
      then (case taxonomic_lineages taxonomy_id of
              None \<Rightarrow> Inl KeyError
            | Some lineage \<Rightarrow>
                (if i < length lineage
                 then level_ids s taxonomic_lineages i rest (set_add id_set (lineage ! i))
                 else Inl IndexError))
      else level_ids s taxonomic_lineages i rest id_set)"

text \<open>The outer \<^verbatim>\<open>for i in range(0, min_depth + 1)\<close> loop and the code after it.\<close>

fun lca_levels ::
  "taxonomy_data \<Rightarrow> (string \<rightharpoonup> string list) \<Rightarrow> string list \<Rightarrow> nat list \<Rightarrow> string list \<Rightarrow>
     py_error + string" where
  "lca_levels s taxonomic_lineages taxonomy_id_list [] upper_level_taxids =
     (if length upper_level_taxids = 1 then set_pop upper_level_taxids
      else Inr UNKNOWN_TAXONOMY_ID)"
| "lca_levels s taxonomic_lineages taxonomy_id_list (i # levels) upper_level_taxids =
     (case level_ids s taxonomic_lineages i taxonomy_id_list [] of
        Inl e \<Rightarrow> Inl e
      | Inr id_set \<Rightarrow>
          (if length id_set > 1 then set_pop upper_level_taxids
           else lca_levels s taxonomic_lineages taxonomy_id_list levels id_set))"

text \<open>
  \<^verbatim>\<open>get_lca(taxonomy_id_list)\<close>. The argument is a Python set, given here as the list of
  its elements in iteration order.
\<close>

definition get_lca ::
  "string list \<Rightarrow> taxonomy_data \<Rightarrow> ((py_error + string) \<times> taxonomy_data) option" where
  "get_lca taxonomy_id_list s =
     (if length taxonomy_id_list = 1
      then tx_bind (set_pop taxonomy_id_list, s) (\<lambda>taxonomy_id s'.
             if taxonomy_id = [] then Some (Inr UNKNOWN_TAXONOMY_ID, s')
             else Some (Inr taxonomy_id, s'))
      else tx_then (lineages_loop taxonomy_id_list Map.empty 1000 s)
             (\<lambda>(taxonomic_lineages, min_depth) s'.
                Some (lca_levels s' taxonomic_lineages taxonomy_id_list [0..<min_depth + 1]
                        (set_of_string UNKNOWN_TAXONOMY_ID), s')))"

subsection \<open>get\_lca2\<close>

text \<open>\<^verbatim>\<open>taxonomic_levels\<close>, a local \<^verbatim>\<open>defaultdict(set)\<close>: rank to set of ids, in insertion
  order of the ranks.\<close>

fun levels_add :: "(string \<times> string list) list \<Rightarrow> string \<Rightarrow> string \<Rightarrow> (string \<times> string list) list" where
  "levels_add [] rank x = [(rank, [x])]"
| "levels_add ((k, v) # rest) rank x =
     (if k = rank then (k, set_add v x) # rest else (k, v) # levels_add rest rank x)"

definition levels_get :: "(string \<times> string list) list \<Rightarrow> string \<Rightarrow> string list" where
  "levels_get taxonomic_levels rank = (case map_of taxonomic_levels rank of None \<Rightarrow> [] | Some v \<Rightarrow> v)"

partial_function (option) ancestors_loop ::
  "string \<Rightarrow> (string \<times> string list) list \<Rightarrow> taxonomy_data \<Rightarrow>
     ((py_error + (string \<times> string list) list) \<times> taxonomy_data) option" where
  "ancestors_loop parent_id taxonomic_levels s =
     (if parent_id \<noteq> ROOT_TAXONOMY_ID
      then tx_bind (nodes_get parent_id ''rank'' s) (\<lambda>rank s'.
           tx_bind (nodes_get parent_id ''parent'' s') (\<lambda>p s''.
             ancestors_loop p (levels_add taxonomic_levels rank parent_id) s''))
      else Some (Inr taxonomic_levels, s))"

fun levels_loop ::
  "string list \<Rightarrow> (string \<times> string list) list \<Rightarrow> taxonomy_data \<Rightarrow>
     ((py_error + (string \<times> string list) list) \<times> taxonomy_data) option" where
  "levels_loop [] taxonomic_levels s = Some (Inr taxonomic_levels, s)"
| "levels_loop (taxonomy_id # rest) taxonomic_levels s =
     (if taxonomy_id = [] then levels_loop rest taxonomic_levels s
      else if nodes s taxonomy_id \<noteq> None
      then tx_bind (nodes_get taxonomy_id ''rank'' s) (\<lambda>rank s1.
           tx_bind (nodes_get taxonomy_id ''parent'' s1) (\<lambda>parent_id s2.
           tx_then (ancestors_loop parent_id (levels_add taxonomic_levels rank taxonomy_id) s2)
             (\<lambda>taxonomic_levels' s3. levels_loop rest taxonomic_levels' s3)))
      else levels_loop rest taxonomic_levels s)"

fun last_good_loop :: "(string \<times> string list) list \<Rightarrow> string list \<Rightarrow> string list \<Rightarrow> string list" where
  "last_good_loop taxonomic_levels [] last_good_level = last_good_level"
| "last_good_loop taxonomic_levels (rank # ranks) last_good_level =
     (if length (levels_get taxonomic_levels rank) = 1
      then last_good_loop taxonomic_levels ranks (levels_get taxonomic_levels rank)
      else last_good_level)"

partial_function (option) ascent_loop ::
  "string list \<Rightarrow> string \<Rightarrow> taxonomy_data \<Rightarrow> ((py_error + string) \<times> taxonomy_data) option" where
  "ascent_loop RANKS ret_val s =
     (if ret_val \<noteq> ROOT_TAXONOMY_ID
      then tx_bind (nodes_get ret_val ''rank'' s) (\<lambda>rank s1.
             if rank \<in> set RANKS then Some (Inr ret_val, s1)
             else tx_bind (nodes_get ret_val ''parent'' s1) (\<lambda>ret_val' s2.
                  tx_bind (nodes_get ret_val' ''rank'' s2) (\<lambda>lca_rank s3.
                    ascent_loop RANKS ret_val' s3)))
      else Some (Inr ret_val, s))"

definition get_lca2 ::
  "string list \<Rightarrow> string list \<Rightarrow> taxonomy_data \<Rightarrow> ((py_error + string) \<times> taxonomy_data) option" where
  "get_lca2 RANKS taxonomy_id_list s =
     (if length taxonomy_id_list = 1
      then tx_bind (set_pop taxonomy_id_list, s) (\<lambda>taxonomy_id s'.
             if taxonomy_id = [] then Some (Inr UNKNOWN_TAXONOMY_ID, s')
             else Some (Inr taxonomy_id, s'))
      else tx_then (levels_loop taxonomy_id_list [] s) (\<lambda>taxonomic_levels s1.
             if length taxonomic_levels = 0 then Some (Inr UNKNOWN_TAXONOMY_ID, s1)
             else tx_bind (set_pop (last_good_loop taxonomic_levels (tl RANKS)
                                      (set_of_string ROOT_TAXONOMY_ID)), s1) (\<lambda>ret_val s2.
                  tx_bind (nodes_get ret_val ''rank'' s2) (\<lambda>lca_rank s3.
                    ascent_loop RANKS ret_val s3))))"

subsection \<open>get\_upper\_level\_taxon, get\_taxonomy\_rank\<close>

partial_function (option) upper_level_loop ::
  "string list \<Rightarrow> string \<Rightarrow> taxonomy_data \<Rightarrow>
     ((py_error + (string \<times> string)) \<times> taxonomy_data) option" where
  "upper_level_loop RANKS current_id s =
     (if current_id \<noteq> ''1''
      then tx_bind (nodes_get current_id ''parent'' s) (\<lambda>current_id' s1.
           tx_bind (nodes_get current_id' ''rank'' s1) (\<lambda>current_rank s2.
             if current_rank \<in> set RANKS then Some (Inr (current_id', current_rank), s2)
             else upper_level_loop RANKS current_id' s2))
      else tx_bind (nodes_get ROOT_TAXONOMY_ID ''rank'' s) (\<lambda>rank s1.
             Some (Inr (ROOT_TAXONOMY_ID, rank), s1)))"

definition get_upper_level_taxon ::
  "string list \<Rightarrow> string \<Rightarrow> taxonomy_data \<Rightarrow>
     ((py_error + (string \<times> string)) \<times> taxonomy_data) option" where
  "get_upper_level_taxon RANKS taxonomy_id s =
     (if names s taxonomy_id = None
      then tx_bind (nodes_get UNKNOWN_TAXONOMY_ID ''rank'' s) (\<lambda>rank s1.
             Some (Inr (UNKNOWN_TAXONOMY_ID, rank), s1))
      else tx_bind (nodes_get taxonomy_id ''parent'' s) (\<lambda>current_id s1.
           tx_bind (nodes_get current_id ''rank'' s1) (\<lambda>current_rank s2.
             if current_id = UNKNOWN_TAXONOMY_ID
             then tx_bind (nodes_get UNKNOWN_TAXONOMY_ID ''rank'' s2) (\<lambda>rank s3.
                    Some (Inr (UNKNOWN_TAXONOMY_ID, rank), s3))
             else if taxonomy_id = ROOT_TAXONOMY_ID
             then tx_bind (nodes_get ROOT_TAXONOMY_ID ''rank'' s2) (\<lambda>rank s3.
                    Some (Inr (ROOT_TAXONOMY_ID, rank), s3))
             else if current_rank \<in> set RANKS then Some (Inr (current_id, current_rank), s2)
             else upper_level_loop RANKS current_id s2)))"

definition get_taxonomy_rank ::
  "string \<Rightarrow> taxonomy_data \<Rightarrow> ((py_error + string) \<times> taxonomy_data) option" where
  "get_taxonomy_rank taxonomy_id s =
     (if nodes s taxonomy_id \<noteq> None then Some (nodes_get taxonomy_id ''rank'' s)
      else Some (Inr UNKNOWN_TAXONOMY_ID, s))"

subsection \<open>The lineage queries\<close>

partial_function (option) lineage_names_loop ::
  "string list \<Rightarrow> string \<Rightarrow> string list \<Rightarrow> taxonomy_data \<Rightarrow>
     ((py_error + string list) \<times> taxonomy_data) option" where
  "lineage_names_loop RANKS parent_id lineage s =
     tx_bind (nodes_get parent_id ''parent'' s) (\<lambda>p s1.
       if p \<noteq> ''1''
       then tx_bind (nodes_get parent_id ''rank'' s1) (\<lambda>rank s2.
            tx_bind (if rank \<in> set RANKS
                     then (case names_get parent_id ''name'' s2 of
                             (Inl e, s3) \<Rightarrow> (Inl e, s3)
                           | (Inr name, s3) \<Rightarrow> (Inr (name # lineage), s3))
                     else (Inr lineage, s2)) (\<lambda>lineage' s3.
              lineage_names_loop RANKS (if names s3 p \<noteq> None then p else ''0'') lineage' s3))
       else Some (Inr lineage, s1))"

definition replace_char :: "string \<Rightarrow> char \<Rightarrow> char \<Rightarrow> string" where
  "replace_char s old new = map (\<lambda>c. if c = old then new else c) s"

definition lineage_text :: "string list \<Rightarrow> string" where
  "lineage_text lineage =
     replace_char (replace_char (replace_char (join ''_'' lineage) CHR '' '' CHR ''_'')
       CHR ''('' CHR ''_'') CHR '')'' CHR ''_''"

definition get_lineage_string ::
  "string list \<Rightarrow> string \<Rightarrow> taxonomy_data \<Rightarrow> ((py_error + string) \<times> taxonomy_data) option" where
  "get_lineage_string RANKS taxonomy_id s =
     (if nodes s taxonomy_id = None then Some (Inr [], s)
      else tx_bind (names_get taxonomy_id ''name'' s) (\<lambda>name s1.
           tx_bind (nodes_get taxonomy_id ''parent'' s1) (\<lambda>parent_id s2.
           tx_then (lineage_names_loop RANKS parent_id [name] s2) (\<lambda>lineage s3.
             Some (Inr (lineage_text lineage), s3)))))"

definition get_taxonomy_lineage ::
  "string list \<Rightarrow> string \<Rightarrow> taxonomy_data \<Rightarrow> ((py_error + string) \<times> taxonomy_data) option" where
  "get_taxonomy_lineage RANKS taxonomy_id s =
     (if nodes s taxonomy_id = None then Some (Inr [], s)
      else tx_bind (names_get taxonomy_id ''name'' s) (\<lambda>name s1.
           tx_bind (nodes_get taxonomy_id ''parent'' s1) (\<lambda>parent_id s2.
           tx_then (lineage_names_loop RANKS parent_id [name] s2) (\<lambda>lineage s3.
             Some (Inr (lineage_text lineage), s3)))))"

subsection \<open>load\_taxdata\<close>

text \<open>
  The three files are given as their lines. A line is stripped of trailing line ends and
  split; a line with too few fields raises \<^verbatim>\<open>IndexError\<close>. A failed load is \<open>Inl\<close>.
\<close>

definition TAB :: string where
  "TAB = [CHR 0x09]"

definition LINE_ENDS :: string where
  "LINE_ENDS = [CHR 0x0A, CHR 0x0D]"

fun load_names :: "string list \<Rightarrow> ddict \<Rightarrow> py_error + ddict" where
  "load_names [] d = Inr d"
| "load_names (line # rest) d =
     (let line_tokens = split (rstrip line LINE_ENDS) (TAB @ ''|'' @ TAB) in
      if length line_tokens \<le> 3 then Inl IndexError
      else if line_tokens ! 3 = ''scientific name'' @ TAB @ ''|''
      then load_names rest (dd_set d (line_tokens ! 0) ''name'' (line_tokens ! 1))
      else load_names rest d)"

fun load_nodes :: "string list \<Rightarrow> ddict \<Rightarrow> py_error + ddict" where
  "load_nodes [] d = Inr d"
| "load_nodes (line # rest) d =
     (let line_tokens = split (rstrip line LINE_ENDS) (TAB @ ''|'' @ TAB) in
      if length line_tokens \<le> 2 then Inl IndexError
      else load_nodes rest
             (dd_set (dd_set d (line_tokens ! 0) ''parent'' (line_tokens ! 1))
                (line_tokens ! 0) ''rank'' (line_tokens ! 2)))"

fun load_merged :: "string list \<Rightarrow> taxonomy_data \<Rightarrow> py_error + taxonomy_data" where
  "load_merged [] s = Inr s"
| "load_merged (line # rest) s =
     (let line_tokens = split (rstrip line LINE_ENDS) TAB in
      if length line_tokens \<le> 2 then Inl IndexError
      else (let old_id = line_tokens ! 0; new_id = line_tokens ! 2 in
            if names s new_id \<noteq> None
            then (case names_get new_id ''name'' s of
                    (Inl e, s1) \<Rightarrow> Inl e
                  | (Inr name, s1) \<Rightarrow>
                      (let s2 = s1\<lparr>names := dd_set (names s1) old_id ''name'' name\<rparr> in
                       case nodes_get new_id ''parent'' s2 of
                         (Inl e, s3) \<Rightarrow> Inl e
                       | (Inr parent, s3) \<Rightarrow>
                           (let s4 = s3\<lparr>nodes := dd_set (nodes s3) old_id ''parent'' parent\<rparr> in
                            case nodes_get new_id ''rank'' s4 of
                              (Inl e, s5) \<Rightarrow> Inl e
                            | (Inr rank, s5) \<Rightarrow>
                                load_merged rest
                                  (s5\<lparr>nodes := dd_set (nodes s5) old_id ''rank'' rank\<rparr>))))
            else load_merged rest s))"

text \<open>\<^verbatim>\<open>__init__\<close>: two empty tables.\<close>

definition init_taxonomy :: taxonomy_data where
  "init_taxonomy = \<lparr>names = Map.empty, nodes = Map.empty\<rparr>"

definition load_taxdata ::
  "string list \<Rightarrow> string list \<Rightarrow> string list \<Rightarrow> taxonomy_data \<Rightarrow> py_error + taxonomy_data" where
  "load_taxdata names_lines nodes_lines merged_lines s =
     (case load_names names_lines (names s) of
        Inl e \<Rightarrow> Inl e
      | Inr names1 \<Rightarrow>
          (if names1 = Map.empty then Inl LoadFailed
           else (case load_nodes nodes_lines (nodes s) of
                   Inl e \<Rightarrow> Inl e
                 | Inr nodes1 \<Rightarrow>
                     (case load_merged merged_lines \<lparr>names = names1, nodes = nodes1\<rparr> of
                        Inl e \<Rightarrow> Inl e
                      | Inr s1 \<Rightarrow>
                          Inr \<lparr>names = dd_set (names s1) UNKNOWN_TAXONOMY_ID ''name'' ''Unknown'',
                               nodes = dd_set (dd_set (dd_set (nodes s1)
                                   UNKNOWN_TAXONOMY_ID ''parent'' ROOT_TAXONOMY_ID)
                                   UNKNOWN_TAXONOMY_ID ''rank'' ''norank'')
                                   ROOT_TAXONOMY_ID ''rank'' ''norank''\<rparr>))))"

section \<open>Hits, hit lists and annotated queries\<close>

text \<open>
  Modelled from the spec: the classes \<^verbatim>\<open>DiamondHit\<close>, \<^verbatim>\<open>DiamondHitList\<close>,
  \<^verbatim>\<open>AnnotatedRead\<close> and \<^verbatim>\<open>ReferenceData\<close> are not among the sources. Their fields are
  those the parser code reads and writes; their methods follow sections 3, 4.1 and 6 of
  the specification. A row of the tabular input is given as the hit that
  \<^verbatim>\<open>create_hit\<close> builds from it (no functions attached yet). Objects are identified with
  their field values.
\<close>

record hit =
  query_id :: string
  subject_id :: string
  identity :: real
  length_hit :: int
  q_start :: int
  q_end :: int
  s_start :: int
  s_end :: int
  evalue :: real
  bitscore :: real
  hit_functions :: "string list"

record diamond_hit_list =
  list_query_id :: string
  hits :: "hit list"

record annotated_read =
  read_id :: string
  read_id_line :: string
  status :: string
  hit_list :: diamond_hit_list
  read_functions :: "string \<rightharpoonup> real"
  taxonomy :: "string option"

record reference_data =
  lookup_functions :: "string \<Rightarrow> string list"
  lookup_protein_tax :: "string \<Rightarrow> string"

text \<open>Modelled from the spec: \<^verbatim>\<open>create_hit\<close> fills the fields from the row.\<close>

definition create_hit :: "hit \<Rightarrow> hit" where
  "create_hit row = row\<lparr>hit_functions := []\<rparr>"

text \<open>Modelled from the spec: \<^verbatim>\<open>DiamondHitList(query_id)\<close>, \<^verbatim>\<open>add_hit\<close> and
  \<^verbatim>\<open>hits_number\<close>.\<close>

definition DiamondHitList :: "string \<Rightarrow> diamond_hit_list" where
  "DiamondHitList qid = \<lparr>list_query_id = qid, hits = []\<rparr>"

definition add_hit :: "diamond_hit_list \<Rightarrow> hit \<Rightarrow> diamond_hit_list" where
  "add_hit l h = l\<lparr>hits := hits l @ [h]\<rparr>"

definition hits_number :: "diamond_hit_list \<Rightarrow> nat" where
  "hits_number l = length (hits l)"

text \<open>
  Modelled from the spec: \<^verbatim>\<open>annotate_hit\<close> resolves the subject to its function ids; a
  subject that maps to no function gets the empty-function sentinel.
\<close>

definition annotate_hit :: "reference_data \<Rightarrow> hit \<Rightarrow> hit" where
  "annotate_hit ref_data h =
     h\<lparr>hit_functions := (if lookup_functions ref_data (subject_id h) = [] then [[]]
                      else lookup_functions ref_data (subject_id h))\<rparr>"

definition annotate_hits :: "reference_data \<Rightarrow> diamond_hit_list \<Rightarrow> diamond_hit_list" where
  "annotate_hits ref_data l = l\<lparr>hits := map (annotate_hit ref_data) (hits l)\<rparr>"

text \<open>
  Modelled from the spec (section 4.1): \<^verbatim>\<open>filter_list\<close> sorts by descending bitscore
  (stably) and accepts a hit unless its overlap fraction with an accepted hit exceeds the
  cutoff; the overlap fraction is the length of the intersection of the query intervals
  over the length of the shorter one.
\<close>

definition interval_lo :: "hit \<Rightarrow> int" where
  "interval_lo h = min (q_start h) (q_end h)"

definition interval_hi :: "hit \<Rightarrow> int" where
  "interval_hi h = max (q_start h) (q_end h)"

definition overlap_fraction :: "hit \<Rightarrow> hit \<Rightarrow> real" where
  "overlap_fraction a b =
     real_of_int (max 0 (min (interval_hi a) (interval_hi b) - max (interval_lo a) (interval_lo b) + 1))
     / real_of_int (min (interval_hi a - interval_lo a + 1) (interval_hi b - interval_lo b + 1))"

fun accept_hits :: "real \<Rightarrow> hit list \<Rightarrow> hit list \<Rightarrow> hit list" where
  "accept_hits overlap_cutoff [] kept = kept"
| "accept_hits overlap_cutoff (h # candidates) kept =
     (if list_ex (\<lambda>k. overlap_fraction h k > overlap_cutoff) kept
      then accept_hits overlap_cutoff candidates kept
      else accept_hits overlap_cutoff candidates (kept @ [h]))"

definition filter_list :: "real \<Rightarrow> diamond_hit_list \<Rightarrow> diamond_hit_list" where
  "filter_list overlap_cutoff l =
     l\<lparr>hits := accept_hits overlap_cutoff (sort_key (\<lambda>h. - bitscore h) (hits l)) []\<rparr>"

text \<open>
  Modelled from the spec: \<^verbatim>\<open>AnnotatedRead(read_id)\<close> starts unprocessed with no scores and
  no taxonomy; \<^verbatim>\<open>set_status\<close> stores the status; \<^verbatim>\<open>append_functions\<close> adds every score
  of the argument to the score the query already holds for that function.
\<close>

definition AnnotatedRead :: "string \<Rightarrow> annotated_read" where
  "AnnotatedRead rid =
     \<lparr>read_id = rid, read_id_line = [], status = ''unprocessed'',
      hit_list = DiamondHitList rid, read_functions = Map.empty, taxonomy = None\<rparr>"

definition set_status :: "annotated_read \<Rightarrow> string \<Rightarrow> annotated_read" where
  "set_status read st = read\<lparr>status := st\<rparr>"

fun append_functions :: "annotated_read \<Rightarrow> (string \<times> real) list \<Rightarrow> annotated_read" where
  "append_functions read [] = read"
| "append_functions read ((f, v) # rest) =
     append_functions
       (read\<lparr>read_functions := (read_functions read)
          (f \<mapsto> (case read_functions read f of None \<Rightarrow> 0 | Some old \<Rightarrow> old) + v)\<rparr>) rest"

section \<open>The cross-validation comparison (compare\_hits\_lca)\<close>

text \<open>The contig of a protein, from its header line, and its coverage (1.0 when the
  coverage table is absent or does not hold the contig).\<close>

definition contig_id_of :: "string \<Rightarrow> string" where
  "contig_id_of protein_id =
     (case split protein_id '' # '' of
        [] \<Rightarrow> []
      | first # _ \<Rightarrow> drop 1 (join ''_'' (butlast (split first ''_''))))"

definition coverage_of :: "(string \<times> real) list option \<Rightarrow> string \<Rightarrow> real" where
  "coverage_of coverage_data contig_id =
     (case coverage_data of
        None \<Rightarrow> 1
      | Some table \<Rightarrow> (case map_of table contig_id of None \<Rightarrow> 1 | Some c \<Rightarrow> c))"

text \<open>Best-hit selection: the loop keeps a hit only when its bitscore is strictly above
  the best so far, which starts at 0.0.\<close>

fun best_hit_loop :: "hit list \<Rightarrow> real \<Rightarrow> hit option \<Rightarrow> real \<times> hit option" where
  "best_hit_loop [] best_bitscore best_hit = (best_bitscore, best_hit)"
| "best_hit_loop (new_hit # rest) best_bitscore best_hit =
     (if bitscore new_hit > best_bitscore
      then best_hit_loop rest (bitscore new_hit) (Some new_hit)
      else best_hit_loop rest best_bitscore best_hit)"

text \<open>
  The bitscore window and the re-admission of the anchor hit. The bound is
  \<^verbatim>\<open>best_bitscore * (1.0 - bitscore_range_cutoff)\<close>: a float subtraction, then a float
  multiplication, each rounded.
\<close>

definition bitscore_window :: "real \<Rightarrow> real \<Rightarrow> hit list \<Rightarrow> hit list" where
  "bitscore_window best_bitscore bitscore_range_cutoff new_hit_list =
     (let bitscore_lower_cutoff = float_mul best_bitscore (float_sub 1 bitscore_range_cutoff)
      in filter (\<lambda>new_hit. bitscore new_hit > bitscore_lower_cutoff) new_hit_list)"

definition readmit :: "hit \<Rightarrow> real \<Rightarrow> hit list \<Rightarrow> hit list" where
  "readmit anchor best_bitscore new_hits =
     (if subject_id anchor \<notin> set (map subject_id new_hits) \<and> bitscore anchor \<ge> best_bitscore
      then new_hits @ [anchor] else new_hits)"

text \<open>
  \<^verbatim>\<open>new_functions_counter\<close> (a \<^verbatim>\<open>Counter\<close>) and \<^verbatim>\<open>new_functions_dict\<close>, both in
  insertion order of their keys. \<^verbatim>\<open>most_common(1)\<close> is the first entry of greatest count,
  and \<^verbatim>\<open>[0]\<close> on its empty result raises \<^verbatim>\<open>IndexError\<close>.
\<close>

fun counter_incr :: "(string \<times> nat) list \<Rightarrow> string \<Rightarrow> (string \<times> nat) list" where
  "counter_incr [] f = [(f, 1)]"
| "counter_incr ((k, n) # rest) f =
     (if k = f then (k, n + 1) # rest else (k, n) # counter_incr rest f)"

fun dict_offer :: "(string \<times> real \<times> hit) list \<Rightarrow> string \<Rightarrow> hit \<Rightarrow> (string \<times> real \<times> hit) list" where
  "dict_offer [] f new_hit = [(f, bitscore new_hit, new_hit)]"
| "dict_offer ((k, bit_score, h) # rest) f new_hit =
     (if k = f
      then (if bitscore new_hit > bit_score then (k, bitscore new_hit, new_hit) # rest
            else (k, bit_score, h) # rest)
      else (k, bit_score, h) # dict_offer rest f new_hit)"

fun tally_hit ::
  "hit \<Rightarrow> string list \<Rightarrow> (string \<times> nat) list \<times> (string \<times> real \<times> hit) list \<Rightarrow>
     (string \<times> nat) list \<times> (string \<times> real \<times> hit) list" where
  "tally_hit new_hit [] acc = acc"
| "tally_hit new_hit (new_func # rest) (counter, dict) =
     tally_hit new_hit rest (counter_incr counter new_func, dict_offer dict new_func new_hit)"

fun tally ::
  "hit list \<Rightarrow> (string \<times> nat) list \<times> (string \<times> real \<times> hit) list \<Rightarrow>
     (string \<times> nat) list \<times> (string \<times> real \<times> hit) list" where
  "tally [] acc = acc"
| "tally (new_hit # rest) acc = tally rest (tally_hit new_hit (hit_functions new_hit) acc)"

fun most_common_from :: "string \<times> nat \<Rightarrow> (string \<times> nat) list \<Rightarrow> string \<times> nat" where
  "most_common_from best [] = best"
| "most_common_from best (item # rest) =
     (if snd item > snd best then most_common_from item rest else most_common_from best rest)"

definition most_common1 :: "(string \<times> nat) list \<Rightarrow> py_error + string" where
  "most_common1 counter =
     (case counter of [] \<Rightarrow> Inl IndexError | item # rest \<Rightarrow> Inr (fst (most_common_from item rest)))"

text \<open>The scores of the functions kept, and the hits kept (one per function other than
  the sentinel), re-anchored to the query and annotated again.\<close>

fun new_functions_of :: "(string \<times> real \<times> hit) list \<Rightarrow> real \<Rightarrow> real \<Rightarrow> py_error + (string \<times> real) list" where
  "new_functions_of [] average_coverage coverage = Inr []"
| "new_functions_of ((function, entry) # rest) average_coverage coverage =
     (if function = [] then new_functions_of rest average_coverage coverage
      else (case get_protein_score average_coverage coverage of
              Inl e \<Rightarrow> Inl e
            | Inr score \<Rightarrow>
                (case new_functions_of rest average_coverage coverage of
                   Inl e \<Rightarrow> Inl e
                 | Inr scores \<Rightarrow> Inr ((function, score) # scores))))"

definition good_hits_of :: "(string \<times> real \<times> hit) list \<Rightarrow> hit list" where
  "good_hits_of dict = map (\<lambda>(new_func, bit_score, h). h) (filter (\<lambda>(new_func, entry). new_func \<noteq> []) dict)"

definition reanchor :: "reference_data \<Rightarrow> string \<Rightarrow> hit \<Rightarrow> hit" where
  "reanchor ref_data rid good_hit = annotate_hit ref_data (good_hit\<lparr>query_id := rid\<rparr>)"

text \<open>
  One round of the loop over the query's hits, for a hit whose query interval is the one
  asked for. It ends the call (\<open>Returned\<close>), falls through to the next hit of the loop
  (\<open>Completed\<close>) or raises. The hits it selects are rewritten in place, so the validation
  list is returned as well.
\<close>

datatype outcome = Returned | Completed | Raised py_error

definition anchor_step ::
  "annotated_read \<Rightarrow> hit \<Rightarrow> hit list \<Rightarrow> real \<Rightarrow> real \<Rightarrow> real \<Rightarrow> reference_data \<Rightarrow>
   taxonomy_data \<Rightarrow> (outcome \<times> annotated_read \<times> hit list \<times> taxonomy_data) option" where
  "anchor_step read anchor new_hit_list bitscore_range_cutoff average_coverage coverage ref_data s =
     (case best_hit_loop new_hit_list 0 None of
        (best_bitscore, None) \<Rightarrow> Some (Returned, set_status read ''nofunction'', new_hit_list, s)
      | (best_bitscore, Some best_hit) \<Rightarrow>
          (if [] \<in> set (hit_functions best_hit)
           then Some (Returned, set_status read ''nofunction'', new_hit_list, s)
           else
            (let read1 = set_status read ''function'';
                 new_hits = readmit anchor best_bitscore
                              (bitscore_window best_bitscore bitscore_range_cutoff new_hit_list);
                 taxonomy_ids = remdups (map (\<lambda>h. lookup_protein_tax ref_data (subject_id h)) new_hits)
             in (case tally new_hits ([], []) of
                   (new_functions_counter, new_functions_dict) \<Rightarrow>
                     (case most_common1 new_functions_counter of
                        Inl e \<Rightarrow> Some (Raised e, read1, new_hit_list, s)
                      | Inr most_common \<Rightarrow>
                          (if most_common = []
                           then Some (Returned, set_status read1 ''nofunction'', new_hit_list, s)
                           else
                            (case new_functions_of new_functions_dict average_coverage coverage of
                               Inl e \<Rightarrow> Some (Raised e, read1, new_hit_list, s)
                             | Inr new_functions \<Rightarrow>
                                 (let read2 = append_functions read1 new_functions;
                                      good_hits = good_hits_of new_functions_dict;
                                      read3 = read2\<lparr>hit_list :=
                                                fold (\<lambda>h l. add_hit l h)
                                                  (map (reanchor ref_data (read_id read)) good_hits)
                                                  (DiamondHitList (read_id read))\<rparr>;
                                      new_hit_list' =
                                        map (\<lambda>h. if h \<in> set good_hits
                                                  then reanchor ref_data (read_id read) h else h)
                                          new_hit_list
                                  in (case get_lca taxonomy_ids s of
                                        None \<Rightarrow> None
                                      | Some (Inl e, s') \<Rightarrow> Some (Raised e, read3, new_hit_list', s')
                                      | Some (Inr lca, s') \<Rightarrow>
                                          Some (Completed, read3\<lparr>taxonomy := Some lca\<rparr>,
                                                new_hit_list', s'))))))))))"

text \<open>The loop \<^verbatim>\<open>for hit in read.hit_list.hits\<close>. It runs over the list the query held
  when the call began, also after a round has replaced the query's hit list.\<close>

fun compare_loop ::
  "hit list \<Rightarrow> int \<Rightarrow> int \<Rightarrow> annotated_read \<Rightarrow> hit list \<Rightarrow> real \<Rightarrow> real \<Rightarrow> real \<Rightarrow>
   reference_data \<Rightarrow> taxonomy_data \<Rightarrow> (py_error option \<times> annotated_read \<times> taxonomy_data) option" where
  "compare_loop [] hit_start hit_end read new_hit_list bitscore_range_cutoff average_coverage
     coverage ref_data s = Some (None, read, s)"
| "compare_loop (h # rest) hit_start hit_end read new_hit_list bitscore_range_cutoff
     average_coverage coverage ref_data s =
     (if q_start h = hit_start \<and> q_end h = hit_end
      then (case anchor_step read h new_hit_list bitscore_range_cutoff average_coverage coverage
                   ref_data s of
              None \<Rightarrow> None
            | Some (Returned, read', new_hit_list', s') \<Rightarrow> Some (None, read', s')
            | Some (Raised e, read', new_hit_list', s') \<Rightarrow> Some (Some e, read', s')
            | Some (Completed, read', new_hit_list', s') \<Rightarrow>
                compare_loop rest hit_start hit_end read' new_hit_list' bitscore_range_cutoff
                  average_coverage coverage ref_data s')
      else compare_loop rest hit_start hit_end read new_hit_list bitscore_range_cutoff
             average_coverage coverage ref_data s)"

text \<open>
  \<^verbatim>\<open>compare_hits_lca\<close>. The result is the exception raised, if any, with the query and
  the taxonomy tables as the call leaves them.
\<close>

definition compare_hits_lca ::
  "annotated_read \<Rightarrow> int \<Rightarrow> int \<Rightarrow> diamond_hit_list \<Rightarrow> real \<Rightarrow> real \<Rightarrow> taxonomy_data \<Rightarrow>
   reference_data \<Rightarrow> (string \<times> real) list option \<Rightarrow>
   (py_error option \<times> annotated_read \<times> taxonomy_data) option" where
  "compare_hits_lca read hit_start hit_end new_hit_list bitscore_range_cutoff average_coverage
     taxonomy_data ref_data coverage_data =
     compare_loop (hits (hit_list read)) hit_start hit_end read (hits new_hit_list)
       bitscore_range_cutoff average_coverage
       (coverage_of coverage_data (contig_id_of (read_id_line read))) ref_data taxonomy_data"

section \<open>The two passes over the search output\<close>

text \<open>
  The cutoffs of the collection, as \<^verbatim>\<open>ProgramConfig\<close> hands them out (the class is not
  among the sources; the getters are the ones the parser calls).
\<close>

record config =
  get_identity_cutoff :: real
  get_length_cutoff :: int
  get_overlap_cutoff :: real
  get_biscore_range_cutoff :: real

type_synonym reads = "string \<rightharpoonup> annotated_read"

subsection \<open>parse\_fastq\_seqid\<close>

definition parse_fastq_seqid :: "string \<Rightarrow> py_error + (string \<times> string)" where
  "parse_fastq_seqid line0 =
     (let line = (if startswith line0 ''@'' then drop 1 line0 else line0) in
      if CHR '' '' \<in> set line
      then (let line_tokens = split line '' '' in
            if length line_tokens = 2
            then (case line_tokens ! 1 of
                    [] \<Rightarrow> Inl IndexError
                  | c # _ \<Rightarrow> Inr (line_tokens ! 0, [c]))
            else if length line_tokens = 3
            then (if endswith (line_tokens ! 0) ''.1'' \<or> endswith (line_tokens ! 0) ''.2''
                  then Inr (take (length (line_tokens ! 0) - 2) (line_tokens ! 0),
                            [last (line_tokens ! 0)])
                  else Inr (line_tokens ! 0, []))
            else Inr (line_tokens ! 0, []))
      else if endswith line ''/1'' \<or> endswith line ''/2''
      then Inr (take (length line - 2) line, [last line])
      else if endswith line ''.1'' \<or> endswith line ''.2''
      then Inr (take (length line - 2) line, [last line])
      else Inr (line, []))"

subsection \<open>int()\<close>

text \<open>
  \<^verbatim>\<open>int(s)\<close> on an ASCII string: the surrounding white space that is dropped is the
  space and the characters 0x09 to 0x0D (the separators 0x1C to 0x1F are not part of it),
  a sign may lead, and the digits may be grouped by single underscores; anything else
  raises \<^verbatim>\<open>ValueError\<close>.
\<close>

definition is_space :: "char \<Rightarrow> bool" where
  "is_space c = (c \<in> set [CHR '' '', CHR 0x09, CHR 0x0A, CHR 0x0B, CHR 0x0C, CHR 0x0D])"

definition strip :: "string \<Rightarrow> string" where
  "strip s = dropWhile is_space (rev (dropWhile is_space (rev s)))"

definition digit_value :: "char \<Rightarrow> nat option" where
  "digit_value c =
     map_of [(CHR ''0'', 0), (CHR ''1'', 1), (CHR ''2'', 2), (CHR ''3'', 3), (CHR ''4'', 4),
             (CHR ''5'', 5), (CHR ''6'', 6), (CHR ''7'', 7), (CHR ''8'', 8), (CHR ''9'', 9)] c"

fun digits_loop :: "string \<Rightarrow> nat \<Rightarrow> bool \<Rightarrow> nat option" where
  "digits_loop [] acc after_digit = (if after_digit then Some acc else None)"
| "digits_loop (c # cs) acc after_digit =
     (if c = CHR ''_''
      then (if after_digit \<and> cs \<noteq> [] then digits_loop cs acc False else None)
      else (case digit_value c of
              None \<Rightarrow> None
            | Some d \<Rightarrow> digits_loop cs (acc * 10 + d) True))"

definition py_int :: "string \<Rightarrow> py_error + int" where
  "py_int s =
     (case (case strip s of
              c # cs \<Rightarrow> (if c = CHR ''-'' then (- 1, cs) else if c = CHR ''+'' then (1, cs)
                         else (1, c # cs))
            | [] \<Rightarrow> (1, [])) of
        (sign, body) \<Rightarrow>
          (case digits_loop body 0 False of
             None \<Rightarrow> Inl ValueError
           | Some n \<Rightarrow> Inr (sign * int n)))"

subsection \<open>parse\_reference\_output (DiamondParser)\<close>

text \<open>
  The loop over the rows. Its state is the current query id, the hit list in flight and
  the dictionary of reads. The block at a change of query id filters first and tests the
  number of hits after; the block at end of input tests first and filters after.
\<close>

fun reference_loop ::
  "config \<Rightarrow> reference_data \<Rightarrow> hit list \<Rightarrow> string \<Rightarrow> diamond_hit_list \<Rightarrow> reads \<Rightarrow>
     py_error + (string \<times> diamond_hit_list \<times> reads)" where
  "reference_loop cfg ref_data [] current_sequence_read_id l rd =
     Inr (current_sequence_read_id, l, rd)"
| "reference_loop cfg ref_data (row # rows) current_sequence_read_id l rd =
     (case parse_fastq_seqid (query_id row) of
        Inl e \<Rightarrow> Inl e
      | Inr (rid, end_id) \<Rightarrow>
          (let h = create_hit (row\<lparr>query_id := rid\<rparr>) in
           if identity h < get_identity_cutoff cfg
           then reference_loop cfg ref_data rows current_sequence_read_id l rd
           else if length_hit h < get_length_cutoff cfg
           then reference_loop cfg ref_data rows current_sequence_read_id l rd
           else if query_id h \<noteq> current_sequence_read_id
           then (let l' = filter_list (get_overlap_cutoff cfg) l;
                     rd' = (if hits_number l' \<noteq> 0
                            then rd(current_sequence_read_id \<mapsto>
                                   (AnnotatedRead current_sequence_read_id)
                                     \<lparr>hit_list := annotate_hits ref_data l'\<rparr>)
                            else rd)
                 in reference_loop cfg ref_data rows (query_id h)
                      (add_hit (DiamondHitList (query_id h)) h) rd')
           else reference_loop cfg ref_data rows current_sequence_read_id (add_hit l h) rd))"

definition parse_reference_output ::
  "config \<Rightarrow> reference_data \<Rightarrow> hit list \<Rightarrow> reads \<Rightarrow> py_error + reads" where
  "parse_reference_output cfg ref_data rows rd =
     (case reference_loop cfg ref_data rows [] (DiamondHitList []) rd of
        Inl e \<Rightarrow> Inl e
      | Inr (current_sequence_read_id, l, rd') \<Rightarrow>
          (if hits_number l \<noteq> 0
           then Inr (rd'(current_sequence_read_id \<mapsto>
                      (AnnotatedRead current_sequence_read_id)
                        \<lparr>hit_list := annotate_hits ref_data
                                       (filter_list (get_overlap_cutoff cfg) l)\<rparr>))
           else Inr rd'))"

subsection \<open>parse\_background\_output (protein pipeline)\<close>

text \<open>The composite query id \<^verbatim>\<open>base|start|end\<close>: the base id is joined first, then the
  start and the end are converted.\<close>

definition decode_protein_id :: "string \<Rightarrow> py_error + (string \<times> int \<times> int)" where
  "decode_protein_id current_query_id =
     (let current_query_id_tokens = split current_query_id ''|'';
          protein_id = join ''|'' (take (length current_query_id_tokens - 2) current_query_id_tokens)
      in if length current_query_id_tokens < 2 then Inl IndexError
         else (case py_int (current_query_id_tokens ! (length current_query_id_tokens - 2)) of
                 Inl e \<Rightarrow> Inl e
               | Inr hit_start \<Rightarrow>
                   (case py_int (last current_query_id_tokens) of
                      Inl e \<Rightarrow> Inl e
                    | Inr hit_end \<Rightarrow> Inr (protein_id, hit_start, hit_end))))"

text \<open>
  The block that closes a group: annotate its hits, decode the id, and compare when the
  base id is a key of the reads. The same statements stand at a change of query id
  (lines 285 to 300) and after the loop (lines 304 to 315). An exception leaves the pass.
\<close>

definition compare_group ::
  "config \<Rightarrow> reference_data \<Rightarrow> real \<Rightarrow> (string \<times> real) list \<Rightarrow> string \<Rightarrow> diamond_hit_list \<Rightarrow>
   reads \<Rightarrow> taxonomy_data \<Rightarrow> (py_error + (reads \<times> taxonomy_data)) option" where
  "compare_group cfg ref_data average_coverage coverage_data current_query_id l rd s =
     (let l' = annotate_hits ref_data l in
      case decode_protein_id current_query_id of
        Inl e \<Rightarrow> Some (Inl e)
      | Inr (protein_id, hit_start, hit_end) \<Rightarrow>
          (case rd protein_id of
             None \<Rightarrow> Some (Inr (rd, s))
           | Some read \<Rightarrow>
               (case compare_hits_lca read hit_start hit_end l' (get_biscore_range_cutoff cfg)
                       average_coverage s ref_data (Some coverage_data) of
                  None \<Rightarrow> None
                | Some (Some e, read', s') \<Rightarrow> Some (Inl e)
                | Some (None, read', s') \<Rightarrow> Some (Inr (rd(protein_id \<mapsto> read'), s')))))"

text \<open>The loop over the rows. \<^verbatim>\<open>current_query_id\<close> and \<^verbatim>\<open>_hit_list\<close> are \<^verbatim>\<open>None\<close> until
  the first row is read.\<close>

fun background_loop ::
  "config \<Rightarrow> reference_data \<Rightarrow> real \<Rightarrow> (string \<times> real) list \<Rightarrow> hit list \<Rightarrow>
   (string \<times> diamond_hit_list) option \<Rightarrow> reads \<Rightarrow> taxonomy_data \<Rightarrow>
   (py_error + ((string \<times> diamond_hit_list) option \<times> reads \<times> taxonomy_data)) option" where
  "background_loop cfg ref_data average_coverage coverage_data [] current rd s =
     Some (Inr (current, rd, s))"
| "background_loop cfg ref_data average_coverage coverage_data (row # rows) current rd s =
     (case (case current of
              None \<Rightarrow> (query_id row, DiamondHitList (query_id row))
            | Some c \<Rightarrow> c) of
        (current_query_id, l) \<Rightarrow>
          (let h = create_hit row in
           if identity h < get_identity_cutoff cfg
           then background_loop cfg ref_data average_coverage coverage_data rows
                  (Some (current_query_id, l)) rd s
           else if length_hit h < get_length_cutoff cfg
           then background_loop cfg ref_data average_coverage coverage_data rows
                  (Some (current_query_id, l)) rd s
           else if query_id h \<noteq> current_query_id
           then (case compare_group cfg ref_data average_coverage coverage_data
                        current_query_id l rd s of
                   None \<Rightarrow> None
                 | Some (Inl e) \<Rightarrow> Some (Inl e)
                 | Some (Inr (rd', s')) \<Rightarrow>
                     background_loop cfg ref_data average_coverage coverage_data rows
                       (Some (query_id h, add_hit (DiamondHitList (query_id h)) h)) rd' s')
           else background_loop cfg ref_data average_coverage coverage_data rows
                  (Some (current_query_id, add_hit l h)) rd s))"

text \<open>After the loop the closing block runs on \<^verbatim>\<open>_hit_list\<close> whatever it is: on
  \<^verbatim>\<open>None\<close> the call \<^verbatim>\<open>_hit_list.annotate_hits\<close> raises \<^verbatim>\<open>AttributeError\<close>.\<close>

definition parse_background_output ::
  "config \<Rightarrow> reference_data \<Rightarrow> (string \<times> real) list \<Rightarrow> hit list \<Rightarrow> reads \<Rightarrow> taxonomy_data \<Rightarrow>
   (py_error + (reads \<times> taxonomy_data)) option" where
  "parse_background_output cfg ref_data coverage_data rows rd s =
     (case average_coverage_of coverage_data of
        Inl e \<Rightarrow> Some (Inl e)
      | Inr average_coverage \<Rightarrow>
          (case background_loop cfg ref_data average_coverage coverage_data rows None rd s of
             None \<Rightarrow> None
           | Some (Inl e) \<Rightarrow> Some (Inl e)
           | Some (Inr (None, rd', s')) \<Rightarrow> Some (Inl AttributeError)
           | Some (Inr (Some (current_query_id, l), rd', s')) \<Rightarrow>
               compare_group cfg ref_data average_coverage coverage_data current_query_id l rd' s'))"

subsection \<open>parse\_background\_output (DiamondParser)\<close>

text \<open>
  The method compares through \<^verbatim>\<open>compare_hits_erpk_lca\<close>, which is not among the sources:
  it is the parameter \<open>cmp\<close> (the exception it raises, if any, and the query and the
  taxonomy tables as it leaves them). \<^verbatim>\<open>import_hit_list\<close> reads the exported hit table
  from disk; what it returns is the parameter \<open>imported\<close>. Here the end of the interval is
  converted before the start, and a \<^verbatim>\<open>KeyError\<close> of the lookup or of the comparison is
  caught and reported.
\<close>

definition decode_read_id :: "string \<Rightarrow> py_error + (string \<times> int \<times> int)" where
  "decode_read_id current_query_id =
     (let current_query_id_tokens = split current_query_id ''|'' in
      case py_int (last current_query_id_tokens) of
        Inl e \<Rightarrow> Inl e
      | Inr hit_end \<Rightarrow>
          (if length current_query_id_tokens < 2 then Inl IndexError
           else (case py_int (current_query_id_tokens ! (length current_query_id_tokens - 2)) of
                   Inl e \<Rightarrow> Inl e
                 | Inr hit_start \<Rightarrow>
                     Inr (join ''|'' (take (length current_query_id_tokens - 2)
                                        current_query_id_tokens), hit_start, hit_end))))"

definition compare_group_reads ::
  "(annotated_read \<Rightarrow> int \<Rightarrow> int \<Rightarrow> diamond_hit_list \<Rightarrow> taxonomy_data \<Rightarrow>
      (py_error option \<times> annotated_read \<times> taxonomy_data) option) \<Rightarrow>
   reference_data \<Rightarrow> string \<Rightarrow> diamond_hit_list \<Rightarrow> reads \<Rightarrow> taxonomy_data \<Rightarrow>
   (py_error + (reads \<times> taxonomy_data)) option" where
  "compare_group_reads cmp ref_data current_query_id l rd s =
     (let l' = annotate_hits ref_data l in
      case decode_read_id current_query_id of
        Inl e \<Rightarrow> Some (Inl e)
      | Inr (rid, hit_start, hit_end) \<Rightarrow>
          (case rd rid of
             None \<Rightarrow> Some (Inr (rd, s))
           | Some read \<Rightarrow>
               (case cmp read hit_start hit_end l' s of
                  None \<Rightarrow> None
                | Some (None, read', s') \<Rightarrow> Some (Inr (rd(rid \<mapsto> read'), s'))
                | Some (Some e, read', s') \<Rightarrow>
                    (if e = KeyError then Some (Inr (rd(rid \<mapsto> read'), s'))
                     else Some (Inl e)))))"

fun background_loop_reads ::
  "(annotated_read \<Rightarrow> int \<Rightarrow> int \<Rightarrow> diamond_hit_list \<Rightarrow> taxonomy_data \<Rightarrow>
      (py_error option \<times> annotated_read \<times> taxonomy_data) option) \<Rightarrow>
   config \<Rightarrow> reference_data \<Rightarrow> hit list \<Rightarrow> (string \<times> diamond_hit_list) option \<Rightarrow> reads \<Rightarrow>
   taxonomy_data \<Rightarrow>
   (py_error + ((string \<times> diamond_hit_list) option \<times> reads \<times> taxonomy_data)) option" where
  "background_loop_reads cmp cfg ref_data [] current rd s = Some (Inr (current, rd, s))"
| "background_loop_reads cmp cfg ref_data (row # rows) current rd s =
     (case (case current of
              None \<Rightarrow> (query_id row, DiamondHitList (query_id row))
            | Some c \<Rightarrow> c) of
        (current_query_id, l) \<Rightarrow>
          (let h = create_hit row in
           if identity h < get_identity_cutoff cfg
           then background_loop_reads cmp cfg ref_data rows (Some (current_query_id, l)) rd s
           else if length_hit h < get_length_cutoff cfg
           then background_loop_reads cmp cfg ref_data rows (Some (current_query_id, l)) rd s
           else if query_id h \<noteq> current_query_id
           then (case compare_group_reads cmp ref_data current_query_id l rd s of
                   None \<Rightarrow> None
                 | Some (Inl e) \<Rightarrow> Some (Inl e)
                 | Some (Inr (rd', s')) \<Rightarrow>
                     background_loop_reads cmp cfg ref_data rows
                       (Some (query_id h, add_hit (DiamondHitList (query_id h)) h)) rd' s')
           else background_loop_reads cmp cfg ref_data rows
                  (Some (current_query_id, add_hit l h)) rd s))"

definition DiamondParser_parse_background_output ::
  "(annotated_read \<Rightarrow> int \<Rightarrow> int \<Rightarrow> diamond_hit_list \<Rightarrow> taxonomy_data \<Rightarrow>
      (py_error option \<times> annotated_read \<times> taxonomy_data) option) \<Rightarrow>
   config \<Rightarrow> reference_data \<Rightarrow> reads \<Rightarrow> hit list \<Rightarrow> reads \<Rightarrow> taxonomy_data \<Rightarrow>
   (py_error + (reads \<times> taxonomy_data)) option" where
  "DiamondParser_parse_background_output cmp cfg ref_data imported rows rd0 s =
     (let rd = (if rd0 = Map.empty then imported else rd0) in
      case background_loop_reads cmp cfg ref_data rows None rd s of
        None \<Rightarrow> None
      | Some (Inl e) \<Rightarrow> Some (Inl e)
      | Some (Inr (None, rd', s')) \<Rightarrow> Some (Inl AttributeError)
      | Some (Inr (Some (current_query_id, l), rd', s')) \<Rightarrow>
          compare_group_reads cmp ref_data current_query_id l rd' s')"

section \<open>The lineage walk in the words of the specification\<close>

text \<open>
  For lineages \<open>L\<close> and depths \<open>D\<close> of the ids: the least depth (not above the bound the
  code starts from), the set of entries at a level, and "all lineages have the same entry
  at level \<open>i\<close>".
\<close>

definition depth_min :: "(string \<Rightarrow> nat) \<Rightarrow> string list \<Rightarrow> nat \<Rightarrow> nat" where
  "depth_min D ids m = fold (\<lambda>t m. if D t < m then D t else m) ids m"

definition level_set :: "(string \<Rightarrow> string list) \<Rightarrow> nat \<Rightarrow> string list \<Rightarrow> string list \<Rightarrow> string list" where
  "level_set L i ids acc = fold (\<lambda>t a. set_add a (L t ! i)) ids acc"

definition levels_agree :: "(string \<Rightarrow> string list) \<Rightarrow> string list \<Rightarrow> nat \<Rightarrow> bool" where
  "levels_agree L ids i = (\<forall>t\<in>set ids. L t ! i = L (hd ids) ! i)"

section \<open>Group finalization as the specification words it\<close>

text \<open>
  A row survives when it is below neither cutoff. Finalizing a group of the reference
  pass, in the words of section 4.2: run overlap resolution, then annotation; if any hits
  survive, insert an annotated query with that hit list under the query id.
\<close>

definition passes_cutoffs :: "config \<Rightarrow> hit \<Rightarrow> bool" where
  "passes_cutoffs cfg h =
     (\<not> identity h < get_identity_cutoff cfg \<and> \<not> length_hit h < get_length_cutoff cfg)"

definition finalize_group ::
  "config \<Rightarrow> reference_data \<Rightarrow> string \<Rightarrow> diamond_hit_list \<Rightarrow> reads \<Rightarrow> reads" where
  "finalize_group cfg ref_data qid grp rd =
     (let l = annotate_hits ref_data (filter_list (get_overlap_cutoff cfg) grp)
      in if hits l \<noteq> [] then rd(qid \<mapsto> (AnnotatedRead qid)\<lparr>hit_list := l\<rparr>) else rd)"

section \<open>Example data\<close>

text \<open>A hit on the query interval 1 to 100, a query that holds one such hit from the
  reference pass, and a reference lookup.\<close>

definition example_hit :: "string \<Rightarrow> real \<Rightarrow> string list \<Rightarrow> hit" where
  "example_hit sid score fs =
     \<lparr>query_id = ''P1|1|100'', subject_id = sid, identity = 90, length_hit = 100,
      q_start = 1, q_end = 100, s_start = 1, s_end = 100, evalue = 0, bitscore = score,
      hit_functions = fs\<rparr>"

definition example_read :: annotated_read where
  "example_read =
     \<lparr>read_id = ''P1'', read_id_line = ''>k141_7_2 # 1 # 300 # 1'', status = ''unprocessed'',
      hit_list = \<lparr>list_query_id = ''P1'', hits = [example_hit ''R1'' 10 [''F1'']]\<rparr>,
      read_functions = Map.empty, taxonomy = None\<rparr>"

definition example_ref :: reference_data where
  "example_ref =
     \<lparr>lookup_functions = (\<lambda>sid. if sid = ''S1'' \<or> sid = ''R1'' then [''F1''] else []),
      lookup_protein_tax = (\<lambda>sid. if sid = ''S1'' then ''C'' else ''E'')\<rparr>"

text \<open>The cutoffs of the specification's scenario and a row of the tabular input.\<close>

definition example_cfg :: config where
  "example_cfg = \<lparr>get_identity_cutoff = 80, get_length_cutoff = 50, get_overlap_cutoff = 1 / 2,
                   get_biscore_range_cutoff = 3 / 100\<rparr>"

definition example_row :: "string \<Rightarrow> string \<Rightarrow> real \<Rightarrow> hit" where
  "example_row qid sid score =
     \<lparr>query_id = qid, subject_id = sid, identity = 90, length_hit = 100,
      q_start = 1, q_end = 100, s_start = 1, s_end = 100, evalue = 0, bitscore = score,
      hit_functions = []\<rparr>"

text \<open>
  Taxonomy dumps in the line format of the three files (fields closed by tab, bar, tab):
  the tree root, A, B, C and root, A, D, E of the specification, and a dump whose node 5
  names a parent, 9, that has no line. The tables are given as \<^verbatim>\<open>load_taxdata\<close> leaves
  them.
\<close>

definition dmp_line :: "string list \<Rightarrow> string" where
  "dmp_line toks = join (TAB @ ''|'' @ TAB) toks @ TAB @ ''|''"

definition example_names_lines :: "string list" where
  "example_names_lines =
     [dmp_line [''1'', ''root'', [], ''scientific name''],
      dmp_line [''A'', ''Alpha'', [], ''scientific name''],
      dmp_line [''B'', ''Beta'', [], ''scientific name''],
      dmp_line [''B'', ''Bt'', [], ''synonym''],
      dmp_line [''C'', ''Gamma (c)'', [], ''scientific name''],
      dmp_line [''D'', ''Delta'', [], ''scientific name''],
      dmp_line [''E'', ''Epsilon'', [], ''scientific name'']]"

definition example_nodes_lines :: "string list" where
  "example_nodes_lines =
     [dmp_line [''1'', ''1'', ''no rank'', []],
      dmp_line [''A'', ''1'', ''phylum'', []],
      dmp_line [''B'', ''A'', ''class'', []],
      dmp_line [''C'', ''B'', ''order'', []],
      dmp_line [''D'', ''A'', ''class'', []],
      dmp_line [''E'', ''D'', ''order'', []]]"

definition example_taxonomy :: taxonomy_data where
  "example_taxonomy =
     \<lparr>names = [''1'' \<mapsto> [''name'' \<mapsto> ''root''], ''A'' \<mapsto> [''name'' \<mapsto> ''Alpha''],
               ''B'' \<mapsto> [''name'' \<mapsto> ''Beta''], ''C'' \<mapsto> [''name'' \<mapsto> ''Gamma (c)''],
               ''D'' \<mapsto> [''name'' \<mapsto> ''Delta''], ''E'' \<mapsto> [''name'' \<mapsto> ''Epsilon''],
               ''0'' \<mapsto> [''name'' \<mapsto> ''Unknown'']],
      nodes = [''A'' \<mapsto> [''parent'' \<mapsto> ''1'', ''rank'' \<mapsto> ''phylum''],
               ''B'' \<mapsto> [''parent'' \<mapsto> ''A'', ''rank'' \<mapsto> ''class''],
               ''C'' \<mapsto> [''parent'' \<mapsto> ''B'', ''rank'' \<mapsto> ''order''],
               ''D'' \<mapsto> [''parent'' \<mapsto> ''A'', ''rank'' \<mapsto> ''class''],
               ''E'' \<mapsto> [''parent'' \<mapsto> ''D'', ''rank'' \<mapsto> ''order''],
               ''0'' \<mapsto> [''parent'' \<mapsto> ''1'', ''rank'' \<mapsto> ''norank''],
               ''1'' \<mapsto> [''parent'' \<mapsto> ''1'', ''rank'' \<mapsto> ''norank'']]\<rparr>"

definition example_ranks :: "string list" where
  "example_ranks = [''norank'', ''superkingdom'', ''phylum'', ''class'', ''order'', ''family'',
                    ''genus'', ''species'']"

definition orphan_names_lines :: "string list" where
  "orphan_names_lines =
     [dmp_line [''1'', ''root'', [], ''scientific name''],
      dmp_line [''5'', ''Orphan'', [], ''scientific name'']]"

definition orphan_nodes_lines :: "string list" where
  "orphan_nodes_lines =
     [dmp_line [''1'', ''1'', ''no rank'', []],
      dmp_line [''5'', ''9'', ''species'', []]]"

definition orphan_taxonomy :: taxonomy_data where
  "orphan_taxonomy =
     \<lparr>names = [''1'' \<mapsto> [''name'' \<mapsto> ''root''], ''5'' \<mapsto> [''name'' \<mapsto> ''Orphan''],
               ''0'' \<mapsto> [''name'' \<mapsto> ''Unknown'']],
      nodes = [''5'' \<mapsto> [''parent'' \<mapsto> ''9'', ''rank'' \<mapsto> ''species''],
               ''0'' \<mapsto> [''parent'' \<mapsto> ''1'', ''rank'' \<mapsto> ''norank''],
               ''1'' \<mapsto> [''parent'' \<mapsto> ''1'', ''rank'' \<mapsto> ''norank'']]\<rparr>"

section \<open>Properties of the normalisation\<close>

text \<open>
  C8: the normalisation never divides by zero. For every coverage, a zero or negative
  average coverage gives the coverage back unchanged, a positive one gives
  coverage / average coverage, and the average that the background pass computes from
  the coverage table is itself obtained without a division by zero.
\<close>

theorem get_protein_score_total:
  "(average_coverage \<le> 0 \<longrightarrow> get_protein_score average_coverage coverage = Inr coverage) \<and>
   (0 < average_coverage \<longrightarrow>
      get_protein_score average_coverage coverage = Inr (coverage / average_coverage)) \<and>
   get_protein_score average_coverage coverage \<noteq> Inl ZeroDivisionError \<and>
   average_coverage_of coverage_data \<noteq> Inl ZeroDivisionError"
  by (auto simp: get_protein_score_def average_coverage_of_def py_truediv_def)

theorem get_protein_score_total_witness:
  "get_protein_score 0 7 = Inr 7 \<and> get_protein_score (-2) 7 = Inr 7 \<and>
   get_protein_score 4 6 = Inr (3 / 2) \<and>
   average_coverage_of [] = Inr 0 \<and>
   average_coverage_of [(''c1'', 3), (''c2'', 5)] = Inr 4"
  using get_protein_score_total [of 0 7 "[]"] get_protein_score_total [of "-2" 7 "[]"]
    get_protein_score_total [of 4 6 "[]"]
  by (simp add: average_coverage_of_def py_truediv_def)

section \<open>Properties of the float rounding\<close>

text \<open>
  \<open>fl_eval\<close> evaluates the rounding on numerals. As a check against the machine: the
  float \<^verbatim>\<open>0.1\<close> is \<open>3602879701896397 / 2 ^ 55\<close>, and \<^verbatim>\<open>1.0 - 0.03\<close> is \<^verbatim>\<open>0.97\<close>.
\<close>

lemmas fl_eval = round_double_def round_half_even_def pow2_def exponent_of_def
  bit_length.simps float_sub_def float_mul_def Let_def

lemma round_double_one: "round_double 1 = 1"
  by (simp add: fl_eval)

lemma round_double_examples:
  "round_double (1 / 10) = 3602879701896397 / 2 ^ 55 \<and>
   float_sub 1 (round_double (3 / 100)) = round_double (97 / 100) \<and>
   round_double (1 / 2) = 1 / 2 \<and> round_double 50 = 50 \<and> round_double (- 3) = - 3"
  by (simp add: fl_eval)

text \<open>
  \<open>pow2\<close> is the power of two, and \<open>exponent_of x\<close> is the exponent \<open>e\<close> with
  \<open>2 ^ e \<le> \<bar>x\<bar> < 2 ^ (e + 1)\<close>.
\<close>

lemma pow2_powr: "pow2 k = 2 powr (of_int k)"
proof (cases "0 \<le> k")
  case True
  then have "(2::real) powr (of_int k) = 2 powr (real (nat k))" by simp
  also have "\<dots> = 2 ^ nat k" by (simp add: powr_realpow)
  finally show ?thesis using True by (simp add: pow2_def)
next
  case False
  then have "(2::real) powr (of_int k) = 2 powr (- real (nat (- k)))" by simp
  also have "\<dots> = 1 / 2 ^ nat (- k)" by (simp add: powr_minus powr_realpow divide_inverse)
  finally show ?thesis using False by (simp add: pow2_def)
qed

lemma pow2_pos: "0 < pow2 k"
  by (simp add: pow2_powr)

lemma pow2_add: "pow2 (a + b) = pow2 a * pow2 b"
  by (simp add: pow2_powr powr_add)

lemma pow2_mono: "a \<le> b \<Longrightarrow> pow2 a \<le> pow2 b"
  by (simp add: pow2_powr)

lemma pow2_nat: "pow2 (int n) = 2 ^ n"
  by (simp add: pow2_def)

lemma pow2_neg_nat: "pow2 (- int n) = 1 / 2 ^ n"
  by (simp add: pow2_powr powr_minus powr_realpow divide_inverse)

lemma bit_length_bounds: "0 < n \<Longrightarrow> 2 ^ (bit_length n - 1) \<le> n \<and> n < 2 ^ bit_length n"
proof (induction n rule: bit_length.induct)
  case (1 n)
  show ?case
  proof (cases "n div 2 = 0")
    case True
    with 1 have "n = 1" by (simp add: div_eq_0_iff)
    then show ?thesis by (simp add: bit_length.simps)
  next
    case False
    with 1 have ih: "2 ^ (bit_length (n div 2) - 1) \<le> n div 2" "n div 2 < 2 ^ bit_length (n div 2)"
      by auto
    have bl: "bit_length n = Suc (bit_length (n div 2))" using 1 by (simp add: bit_length.simps)
    have pos: "0 < bit_length (n div 2)" using False by (simp add: bit_length.simps)
    define a :: nat where "a = 2 ^ (bit_length (n div 2) - 1)"
    from pos have "(2::nat) ^ bit_length (n div 2) = 2 * a"
      unfolding a_def by (cases "bit_length (n div 2)") simp_all
    with ih have "a \<le> n div 2" "n div 2 < 2 * a" "2 ^ bit_length n = 4 * a"
      "2 ^ (bit_length n - 1) = 2 * a"
      unfolding bl a_def by simp_all
    then show ?thesis by presburger
  qed
qed

lemma exponent_of_le_abs:
  assumes "x \<noteq> 0"
  shows "pow2 (exponent_of x) \<le> \<bar>x\<bar>"
proof (cases "1 \<le> \<bar>x\<bar>")
  case True
  let ?n = "nat \<lfloor>\<bar>x\<bar>\<rfloor>"
  from True have n: "0 < ?n" by simp
  from bit_length_bounds [OF n] have b: "2 ^ (bit_length ?n - 1) \<le> ?n" and p: "0 < bit_length ?n"
    using n by (auto simp: bit_length.simps)
  have "exponent_of x = int (bit_length ?n - 1)" using True p by (simp add: exponent_of_def)
  then have "pow2 (exponent_of x) = 2 ^ (bit_length ?n - 1)" by (simp add: pow2_nat)
  also have "\<dots> \<le> real ?n"
  proof -
    from b have "real (2 ^ (bit_length ?n - 1)) \<le> real ?n" by (simp only: of_nat_le_iff)
    then show ?thesis by simp
  qed
  also have "\<dots> \<le> \<bar>x\<bar>" using True by simp
  finally show ?thesis .
next
  case False
  let ?m = "nat \<lceil>1 / \<bar>x\<bar>\<rceil> - 1"
  from False assms have gt: "1 < 1 / \<bar>x\<bar>" by simp
  then have c2: "2 \<le> \<lceil>1 / \<bar>x\<bar>\<rceil>" by linarith
  then have m: "0 < ?m" by simp
  from bit_length_bounds [OF m] have u: "?m < 2 ^ bit_length ?m" by simp
  have p: "0 < bit_length ?m" using m by (simp add: bit_length.simps)
  have "exponent_of x = - int (bit_length ?m)" using False by (simp add: exponent_of_def)
  then have e: "pow2 (exponent_of x) = 1 / 2 ^ bit_length ?m" using p by (simp add: pow2_def)
  have "1 / \<bar>x\<bar> \<le> of_int \<lceil>1 / \<bar>x\<bar>\<rceil>" by simp
  also have "of_int \<lceil>1 / \<bar>x\<bar>\<rceil> = real (?m + 1)"
  proof -
    from c2 have "?m + 1 = nat \<lceil>1 / \<bar>x\<bar>\<rceil>" by arith
    moreover from c2 have "real (nat \<lceil>1 / \<bar>x\<bar>\<rceil>) = of_int \<lceil>1 / \<bar>x\<bar>\<rceil>" by simp
    ultimately show ?thesis by simp
  qed
  also have "real (?m + 1) \<le> real (2 ^ bit_length ?m)" using u by (simp only: of_nat_le_iff)
  finally have "1 / \<bar>x\<bar> \<le> 2 ^ bit_length ?m" by simp
  then have "1 / 2 ^ bit_length ?m \<le> \<bar>x\<bar>" using assms
    by (simp add: field_simps)
  with e show ?thesis by simp
qed

lemma exponent_of_le:
  assumes "x \<noteq> 0" and "\<bar>x\<bar> < pow2 (E + 1)"
  shows "exponent_of x \<le> E"
proof (rule ccontr)
  assume "\<not> exponent_of x \<le> E"
  then have "E + 1 \<le> exponent_of x" by simp
  then have "pow2 (E + 1) \<le> pow2 (exponent_of x)" by (rule pow2_mono)
  also have "\<dots> \<le> \<bar>x\<bar>" by (rule exponent_of_le_abs [OF assms(1)])
  finally show False using assms(2) by simp
qed

lemma abs_less_next_exponent:
  assumes "x \<noteq> 0"
  shows "\<bar>x\<bar> < pow2 (exponent_of x + 1)"
proof (cases "1 \<le> \<bar>x\<bar>")
  case True
  let ?n = "nat \<lfloor>\<bar>x\<bar>\<rfloor>"
  from True have n: "0 < ?n" by simp
  from bit_length_bounds [OF n] have u: "?n < 2 ^ bit_length ?n" by simp
  have "exponent_of x + 1 = int (bit_length ?n)" using True by (simp add: exponent_of_def)
  then have e: "pow2 (exponent_of x + 1) = 2 ^ bit_length ?n" by (simp add: pow2_nat)
  from u have "?n + 1 \<le> 2 ^ bit_length ?n" by linarith
  then have "real (?n + 1) \<le> real (2 ^ bit_length ?n)" by (simp only: of_nat_le_iff)
  then have "real ?n + 1 \<le> 2 ^ bit_length ?n" by simp
  moreover have "\<bar>x\<bar> < of_int \<lfloor>\<bar>x\<bar>\<rfloor> + 1" by linarith
  moreover have "real ?n = of_int \<lfloor>\<bar>x\<bar>\<rfloor>" by simp
  ultimately show ?thesis using e by linarith
next
  case False
  let ?m = "nat \<lceil>1 / \<bar>x\<bar>\<rceil> - 1"
  from False assms have gt: "1 < 1 / \<bar>x\<bar>" by simp
  then have c2: "2 \<le> \<lceil>1 / \<bar>x\<bar>\<rceil>" by linarith
  then have m: "0 < ?m" by simp
  from bit_length_bounds [OF m] have l: "2 ^ (bit_length ?m - 1) \<le> ?m" by simp
  have p: "0 < bit_length ?m" using m by (simp add: bit_length.simps)
  have ex1: "exponent_of x + 1 = - int (bit_length ?m - 1)" using False p
    by (simp add: exponent_of_def)
  have e: "pow2 (exponent_of x + 1) = 1 / 2 ^ (bit_length ?m - 1)"
    unfolding ex1 by (rule pow2_neg_nat)
  from l have "real (2 ^ (bit_length ?m - 1)) \<le> real ?m" by (simp only: of_nat_le_iff)
  then have "2 ^ (bit_length ?m - 1) \<le> real ?m" by simp
  moreover have "real ?m < 1 / \<bar>x\<bar>"
  proof -
    from c2 have "?m + 1 = nat \<lceil>1 / \<bar>x\<bar>\<rceil>" by arith
    moreover from c2 have "real (nat \<lceil>1 / \<bar>x\<bar>\<rceil>) = of_int \<lceil>1 / \<bar>x\<bar>\<rceil>" by simp
    ultimately have "real ?m + 1 = of_int \<lceil>1 / \<bar>x\<bar>\<rceil>" by (metis of_nat_Suc Suc_eq_plus1 add.commute)
    moreover have "of_int \<lceil>1 / \<bar>x\<bar>\<rceil> < 1 / \<bar>x\<bar> + 1" by linarith
    ultimately show ?thesis by linarith
  qed
  ultimately have "2 ^ (bit_length ?m - 1) < 1 / \<bar>x\<bar>" by linarith
  then have "\<bar>x\<bar> < 1 / 2 ^ (bit_length ?m - 1)" using assms by (simp add: field_simps)
  with e show ?thesis by simp
qed

lemma exponent_of_ge:
  assumes "x \<noteq> 0" and "pow2 E \<le> \<bar>x\<bar>"
  shows "E \<le> exponent_of x"
proof (rule ccontr)
  assume "\<not> E \<le> exponent_of x"
  then have "exponent_of x + 1 \<le> E" by simp
  then have "pow2 (exponent_of x + 1) \<le> pow2 E" by (rule pow2_mono)
  with abs_less_next_exponent [OF assms(1)] assms(2) show False by linarith
qed

text \<open>
  Rounding to the nearest integer does not pass an integer, nor the integer above when
  the argument is more than a half below it; rounding to a float keeps the sign.
\<close>

lemma round_half_even_le:
  assumes "r \<le> of_int N"
  shows "round_half_even r \<le> N"
proof (cases "\<lfloor>r\<rfloor> = N")
  case True
  then have "of_int N \<le> r" by (metis of_int_floor_le)
  with assms have "r = of_int N" by simp
  then show ?thesis by (simp add: round_half_even_def)
next
  case False
  from assms have "\<lfloor>r\<rfloor> \<le> N" by (simp add: floor_le_iff)
  with False have "\<lfloor>r\<rfloor> + 1 \<le> N" by simp
  then show ?thesis by (simp add: round_half_even_def)
qed

lemma round_half_even_below_half:
  assumes "r < of_int N - 1 / 2"
  shows "round_half_even r \<le> N - 1"
proof (cases "\<lfloor>r\<rfloor> = N - 1")
  case True
  then have "r - of_int \<lfloor>r\<rfloor> < 1 / 2" using assms by simp
  then show ?thesis using True by (simp add: round_half_even_def)
next
  case False
  from assms have "r < of_int (N - 1) + 1" by simp
  then have "\<lfloor>r\<rfloor> \<le> N - 1" by (simp only: floor_le_iff)
  with False have "\<lfloor>r\<rfloor> + 1 \<le> N - 1" by simp
  then show ?thesis by (simp add: round_half_even_def)
qed

lemma round_double_nonzero:
  "x \<noteq> 0 \<Longrightarrow>
   round_double x = pow2 (max (exponent_of x) (- 1022) - 52)
     * of_int (round_half_even (x / pow2 (max (exponent_of x) (- 1022) - 52)))"
  by (simp add: round_double_def Let_def)

lemma round_double_nonpos:
  assumes "x \<le> 0"
  shows "round_double x \<le> 0"
proof (cases "x = 0")
  case True
  then show ?thesis by (simp add: round_double_def)
next
  case False
  let ?q = "pow2 (max (exponent_of x) (- 1022) - 52)"
  have q: "0 < ?q" by (rule pow2_pos)
  from assms q have "x / ?q \<le> of_int 0" by (simp add: divide_nonpos_pos)
  then have "round_half_even (x / ?q) \<le> 0" by (rule round_half_even_le)
  then have "?q * of_int (round_half_even (x / ?q)) \<le> 0"
    using q by (simp add: mult_le_0_iff)
  then show ?thesis using False by (simp add: round_double_def Let_def)
qed

text \<open>
  The subtraction \<^verbatim>\<open>1.0 - c\<close>: it is at most the float just below 1.0, which is
  \<open>1 - 2 ^ -53\<close>, exactly when \<open>c\<close> is above \<open>2 ^ -54\<close>; for \<open>c\<close> from 0 to \<open>2 ^ -54\<close> it is 1.0
  (at \<open>2 ^ -54\<close> the tie goes to the even significand, that of 1.0).
\<close>

lemma round_double_below_one:
  assumes "0 < x" and "x \<le> 1 - 1 / 2 ^ 53"
  shows "round_double x \<le> 1 - 1 / 2 ^ 53"
proof -
  from assms have x1: "x < 1" by simp
  have "\<bar>x\<bar> < pow2 (- 1 + 1)" using assms(1) x1 by (simp add: pow2_def)
  with assms(1) have e: "exponent_of x \<le> - 1" by (intro exponent_of_le) simp_all
  define k where "k = max (exponent_of x) (- 1022) - 52"
  define n where "n = nat (- k - 53)"
  from e have k: "k \<le> - 53" by (simp add: k_def)
  then have kn: "- 53 = k + int n" by (simp add: n_def)
  have q: "0 < pow2 k" by (rule pow2_pos)
  have p53': "pow2 (- 53) = pow2 k * 2 ^ n" unfolding kn by (simp add: pow2_add pow2_nat)
  then have p53: "1 / 2 ^ 53 = pow2 k * 2 ^ n" by (simp add: pow2_def)
  have "pow2 0 = pow2 (- 53) * pow2 53" by (simp add: pow2_add [symmetric])
  then have one: "1 = pow2 k * (2 ^ n * 2 ^ 53)" using p53' by (simp add: pow2_def)
  define N :: int where "N = 2 ^ n * 2 ^ 53 - 2 ^ n"
  have top: "1 - 1 / 2 ^ 53 = pow2 k * of_int N"
  proof -
    have "pow2 k * of_int N = pow2 k * (2 ^ n * 2 ^ 53) - pow2 k * 2 ^ n"
      by (simp add: N_def algebra_simps)
    also have "\<dots> = 1 - 1 / 2 ^ 53" using one p53 by simp
    finally show ?thesis by simp
  qed
  have "x / pow2 k \<le> of_int N"
  proof -
    from assms(2) top have "x \<le> pow2 k * of_int N" by simp
    then show ?thesis using q by (simp add: field_simps)
  qed
  then have "round_half_even (x / pow2 k) \<le> N" by (rule round_half_even_le)
  then have "pow2 k * of_int (round_half_even (x / pow2 k)) \<le> pow2 k * of_int N"
    using q by simp
  with top show ?thesis
    using assms(1) by (simp add: round_double_def Let_def k_def)
qed

lemma round_double_near_one:
  assumes "1 - 1 / 2 ^ 53 < x" and "x < 1 - 1 / 2 ^ 54"
  shows "round_double x \<le> 1 - 1 / 2 ^ 53"
proof -
  from assms have x: "0 < x" "x < 1" "1 / 2 \<le> x" by simp_all
  then have xne: "x \<noteq> 0" by simp
  have "\<bar>x\<bar> < pow2 (- 1 + 1)" using x by (simp add: pow2_def)
  with xne have "exponent_of x \<le> - 1" by (rule exponent_of_le)
  moreover have "pow2 (- 1) \<le> \<bar>x\<bar>" using x by (simp add: pow2_def)
  with xne have "- 1 \<le> exponent_of x" by (rule exponent_of_ge)
  ultimately have e: "exponent_of x = - 1" by simp
  have q: "pow2 (max (exponent_of x) (- 1022) - 52) = 1 / 2 ^ 53" by (simp add: e pow2_def)
  have "x / (1 / 2 ^ 53) < of_int (2 ^ 53) - 1 / 2" using assms(2) by simp
  then have "round_half_even (x / (1 / 2 ^ 53)) \<le> 2 ^ 53 - 1"
    by (rule round_half_even_below_half)
  then have "(of_int (round_half_even (x / (1 / 2 ^ 53))) :: real) \<le> of_int (2 ^ 53 - 1)"
    by (simp only: of_int_le_iff)
  then have "1 / 2 ^ 53 * of_int (round_half_even (x / (1 / 2 ^ 53))) \<le> (1 - 1 / 2 ^ 53 :: real)"
    by simp
  then show ?thesis unfolding round_double_nonzero [OF xne] q .
qed

lemma float_sub_one_bound:
  assumes "1 / 2 ^ 54 < c"
  shows "float_sub 1 c \<le> 1 - 1 / 2 ^ 53"
proof -
  consider "1 - c \<le> 0" | "0 < 1 - c" "1 - c \<le> 1 - 1 / 2 ^ 53" | "1 - 1 / 2 ^ 53 < 1 - c"
    by linarith
  then show ?thesis
  proof cases
    case 1
    from round_double_nonpos [OF this] show ?thesis by (simp add: float_sub_def)
  next
    case 2
    then show ?thesis unfolding float_sub_def by (rule round_double_below_one)
  next
    case 3
    moreover from assms have "1 - c < 1 - 1 / 2 ^ 54" by simp
    ultimately show ?thesis unfolding float_sub_def by (rule round_double_near_one)
  qed
qed

text \<open>
  The product of a normal float \<open>m * 2 ^ (e - 52)\<close> (other than the smallest one,
  \<open>2 ^ -1022\<close>) with a factor of at most \<open>1 - 2 ^ -53\<close> rounds strictly below the float.
  A real that its own rounding leaves unchanged is a float; above \<open>2 ^ -1022\<close> it is such
  a normal float.
\<close>

lemma float_mul_below:
  assumes rep: "best = of_int m * pow2 (e - 52)"
    and m: "2 ^ 52 \<le> m" "m < 2 ^ 53"
    and e: "- 1022 \<le> e"
    and nm: "\<not> (m = 2 ^ 52 \<and> e = - 1022)"
    and t: "t \<le> 1 - 1 / 2 ^ 53"
  shows "float_mul best t < best"
proof -
  have mpos: "0 < (of_int m :: real)" using m(1) by simp
  have bpos: "0 < best" unfolding rep using mpos pow2_pos by (rule mult_pos_pos)
  let ?y = "best * t"
  show ?thesis
  proof (cases "?y \<le> 0")
    case True
    from round_double_nonpos [OF this] bpos show ?thesis by (simp add: float_mul_def)
  next
    case False
    then have y: "0 < ?y" by simp
    have yle: "?y \<le> best * (1 - 1 / 2 ^ 53)" using t bpos by simp
    have "best * (1 - 1 / 2 ^ 53) < best * 1" using bpos by (intro mult_strict_left_mono) simp_all
    with yle have ylt: "?y < best" by simp
    have "of_int m * pow2 (e - 52) < 2 ^ 53 * pow2 (e - 52)"
      using m(2) pow2_pos [of "e - 52"] by (intro mult_strict_right_mono) simp_all
    also have "\<dots> = pow2 53 * pow2 (e - 52)" by (simp add: pow2_def)
    also have "\<dots> = pow2 (53 + (e - 52))" by (rule pow2_add [symmetric])
    also have "53 + (e - 52) = e + 1" by simp
    finally have btop: "best < pow2 (e + 1)" by (simp add: rep)
    from y have yne: "?y \<noteq> 0" by linarith
    from y ylt btop have "\<bar>?y\<bar> < pow2 (e + 1)" by linarith
    with yne have ey: "exponent_of ?y \<le> e" by (rule exponent_of_le)
    define k where "k = max (exponent_of ?y) (- 1022) - 52"
    have kle: "k \<le> e - 52" using ey e by (simp add: k_def)
    define d where "d = nat (e - 52 - k)"
    have ek: "e - 52 = k + int d" using kle by (simp add: d_def)
    have pe: "pow2 (e - 52) = pow2 k * 2 ^ d" unfolding ek by (simp add: pow2_add pow2_nat)
    define M :: int where "M = m * 2 ^ d"
    have bM: "best = pow2 k * of_int M" by (simp add: rep pe M_def)
    have q: "0 < pow2 k" by (rule pow2_pos)
    have rd: "round_double ?y = pow2 k * of_int (round_half_even (?y / pow2 k))"
      unfolding k_def by (rule round_double_nonzero [OF yne])
    define r where "r = ?y / pow2 k"
    define w :: real where "w = of_int M / 2 ^ 53"
    have yq: "r \<le> of_int M - w"
    proof -
      from yle have "?y \<le> pow2 k * (of_int M - of_int M / 2 ^ 53)"
        by (simp add: bM algebra_simps)
      then show ?thesis unfolding r_def w_def using q by (simp add: field_simps)
    qed
    have key: "round_half_even r \<le> M - 1"
    proof (cases "d = 0")
      case False
      then have "(2::int) \<le> 2 ^ d" by (cases d) simp_all
      with m(1) have "2 ^ 52 * 2 \<le> m * 2 ^ d" by (intro mult_mono) simp_all
      then have "2 ^ 53 \<le> M" by (simp add: M_def)
      then have "(of_int (2 ^ 53) :: real) \<le> of_int M" by (simp only: of_int_le_iff)
      then have "(2 ^ 53 :: real) \<le> of_int M" by simp
      then have "1 \<le> w" unfolding w_def by simp
      with yq have "r \<le> of_int M - 1" by linarith
      then have "r \<le> of_int (M - 1)" by simp
      then show ?thesis by (rule round_half_even_le)
    next
      case True
      then have Mm: "M = m" by (simp add: M_def)
      from True ek have ke: "k = e - 52" by simp
      have mgt: "2 ^ 52 < m"
      proof (rule ccontr)
        assume "\<not> 2 ^ 52 < m"
        with m(1) have m52: "m = 2 ^ 52" by simp
        with nm e have e1: "- 1021 \<le> e" by simp
        have "best = pow2 52 * pow2 (e - 52)" by (simp add: rep m52 pow2_def)
        also have "\<dots> = pow2 (52 + (e - 52))" by (rule pow2_add [symmetric])
        also have "52 + (e - 52) = e - 1 + 1" by simp
        finally have "best = pow2 (e - 1 + 1)" .
        with y ylt have "\<bar>?y\<bar> < pow2 (e - 1 + 1)" by linarith
        with yne have "exponent_of ?y \<le> e - 1" by (rule exponent_of_le)
        with e1 have "k \<le> e - 1 - 52" by (simp add: k_def)
        with ke show False by simp
      qed
      then have "2 ^ 52 + 1 \<le> m" by simp
      then have "(of_int (2 ^ 52 + 1) :: real) \<le> of_int m" by (simp only: of_int_le_iff)
      then have "(2 ^ 52 + 1 :: real) \<le> of_int m" by simp
      then have "1 / 2 < w" unfolding w_def Mm by simp
      with yq have "r < of_int M - 1 / 2" by linarith
      then show ?thesis by (rule round_half_even_below_half)
    qed
    then have "(of_int (round_half_even r) :: real) \<le> of_int (M - 1)"
      by (simp only: of_int_le_iff)
    then have "pow2 k * of_int (round_half_even r) \<le> pow2 k * of_int (M - 1)"
      using q by simp
    also have "\<dots> < pow2 k * of_int M" using q by simp
    finally show ?thesis by (simp add: float_mul_def rd bM [symmetric] r_def)
  qed
qed

lemma bound_below_best:
  assumes "best = of_int m * pow2 (e - 52)" "2 ^ 52 \<le> m" "m < 2 ^ 53" "- 1022 \<le> e"
    "\<not> (m = 2 ^ 52 \<and> e = - 1022)" "1 / 2 ^ 54 < c"
  shows "float_mul best (float_sub 1 c) < best"
  by (rule float_mul_below [OF assms(1-5) float_sub_one_bound [OF assms(6)]])


lemma float_sub_one_absorbs:
  assumes "0 \<le> c" and "c \<le> 1 / 2 ^ 54"
  shows "float_sub 1 c = 1"
proof (cases "c = 0")
  case True
  then show ?thesis by (simp add: float_sub_def round_double_one)
next
  case False
  define x where "x = 1 - c"
  from False assms have x: "1 - 1 / 2 ^ 54 \<le> x" "x < 1" "0 < x" "1 / 2 \<le> x"
    by (simp_all add: x_def)
  then have xne: "x \<noteq> 0" by simp
  have "\<bar>x\<bar> < pow2 (- 1 + 1)" using x by (simp add: pow2_def)
  with xne have "exponent_of x \<le> - 1" by (rule exponent_of_le)
  moreover have "pow2 (- 1) \<le> \<bar>x\<bar>" using x by (simp add: pow2_def)
  with xne have "- 1 \<le> exponent_of x" by (rule exponent_of_ge)
  ultimately have e: "exponent_of x = - 1" by simp
  have q: "pow2 (max (exponent_of x) (- 1022) - 52) = 1 / 2 ^ 53" by (simp add: e pow2_def)
  define r where "r = x / (1 / 2 ^ 53)"
  have r: "of_int (2 ^ 53 - 1) + 1 / 2 \<le> r" "r < of_int (2 ^ 53 - 1) + 1"
    using x(1,2) by (simp_all add: r_def)
  then have fl: "\<lfloor>r\<rfloor> = 2 ^ 53 - 1" by (intro floor_unique) linarith+
  have "round_half_even r = 2 ^ 53"
    unfolding round_half_even_def fl using r by simp
  then have "round_double x = 1"
    unfolding round_double_nonzero [OF xne] q r_def [symmetric] by simp
  then show ?thesis by (simp add: float_sub_def x_def)
qed

lemma bound_is_best:
  assumes "round_double b = b" and "0 \<le> c" and "c \<le> 1 / 2 ^ 54"
  shows "float_mul b (float_sub 1 c) = b"
  by (simp add: float_sub_one_absorbs [OF assms(2,3)] float_mul_def assms(1))

lemma normal_float_rep:
  assumes "round_double b = b" and "pow2 (- 1022) < b"
  shows "\<exists>m e. b = of_int m * pow2 (e - 52) \<and> 2 ^ 52 \<le> m \<and> m < 2 ^ 53 \<and> - 1022 \<le> e \<and>
           \<not> (m = 2 ^ 52 \<and> e = - 1022)"
proof -
  have bpos: "0 < b" using assms(2) pow2_pos [of "- 1022"] by linarith
  then have bne: "b \<noteq> 0" by simp
  define E where "E = exponent_of b"
  have lo: "pow2 E \<le> b" using exponent_of_le_abs [OF bne] bpos by (simp add: E_def)
  have hi: "b < pow2 (E + 1)" using abs_less_next_exponent [OF bne] bpos by (simp add: E_def)
  have "pow2 (- 1022) \<le> \<bar>b\<bar>" using assms(2) bpos by simp
  with bne have E: "- 1022 \<le> E" unfolding E_def by (rule exponent_of_ge)
  define q where "q = pow2 (E - 52)"
  have qpos: "0 < q" unfolding q_def by (rule pow2_pos)
  define m where "m = round_half_even (b / q)"
  have "max (exponent_of b) (- 1022) = E" using E by (simp add: E_def)
  with round_double_nonzero [OF bne] assms(1) have b: "b = q * of_int m"
    by (simp add: q_def m_def)
  have "E = (E - 52) + 52" by simp
  then have "pow2 E = pow2 ((E - 52) + 52)" by (rule arg_cong)
  also have "\<dots> = q * pow2 52" unfolding q_def by (rule pow2_add)
  finally have pE: "pow2 E = q * 2 ^ 52" by (simp add: pow2_def)
  have "E + 1 = (E - 52) + 53" by simp
  then have "pow2 (E + 1) = pow2 ((E - 52) + 53)" by (rule arg_cong)
  also have "\<dots> = q * pow2 53" unfolding q_def by (rule pow2_add)
  finally have pE1: "pow2 (E + 1) = q * 2 ^ 53" by (simp add: pow2_def)
  from lo pE b have "q * 2 ^ 52 \<le> q * of_int m" by simp
  then have "(of_int (2 ^ 52) :: real) \<le> of_int m" using qpos by simp
  then have m1: "2 ^ 52 \<le> m" by (simp only: of_int_le_iff)
  from hi pE1 b have "q * of_int m < q * 2 ^ 53" by simp
  then have "(of_int m :: real) < of_int (2 ^ 53)" using qpos by simp
  then have m2: "m < 2 ^ 53" by (simp only: of_int_less_iff)
  have "\<not> (m = 2 ^ 52 \<and> E = - 1022)"
  proof
    assume "m = 2 ^ 52 \<and> E = - 1022"
    then have "b = pow2 (- 1022)" using b pE by simp
    with assms(2) show False by simp
  qed
  with b m1 m2 E show ?thesis unfolding q_def by (intro exI [of _ m] exI [of _ E]) (simp add: mult.commute)
qed

lemma bound_below_best_float:
  assumes "round_double b = b" and "pow2 (- 1022) < b" and "1 / 2 ^ 54 < c"
  shows "float_mul b (float_sub 1 c) < b"
proof -
  from normal_float_rep [OF assms(1,2)] obtain m e where
    "b = of_int m * pow2 (e - 52)" "2 ^ 52 \<le> m" "m < 2 ^ 53" "- 1022 \<le> e"
    "\<not> (m = 2 ^ 52 \<and> e = - 1022)" by blast
  then show ?thesis using assms(3) by (rule bound_below_best)
qed

section \<open>Properties of the cross-validation comparison\<close>

lemma best_hit_loop_cases:
  "best_hit_loop l b0 h0 = (b, r) \<Longrightarrow>
     (r = h0 \<and> b = b0) \<or> (\<exists>bh. r = Some bh \<and> bh \<in> set l \<and> bitscore bh = b \<and> b > b0)"
proof (induction l arbitrary: b0 h0)
  case Nil
  then show ?case by simp
next
  case (Cons x xs)
  show ?case
  proof (cases "bitscore x > b0")
    case True
    with Cons.prems have "best_hit_loop xs (bitscore x) (Some x) = (b, r)" by simp
    from Cons.IH [OF this] True show ?thesis by auto
  next
    case False
    with Cons.prems have "best_hit_loop xs b0 h0 = (b, r)" by simp
    from Cons.IH [OF this] show ?thesis by auto
  qed
qed

lemma best_hit_loop_Some:
  assumes "best_hit_loop l 0 None = (b, Some bh)"
  shows "bh \<in> set l \<and> bitscore bh = b \<and> 0 < b"
  using best_hit_loop_cases [OF assms] by auto

lemma anchor_step_no_best:
  assumes "snd (best_hit_loop l 0 None) = None"
  shows "anchor_step read a l c avg cov ref s
         = Some (Returned, read\<lparr>status := ''nofunction''\<rparr>, l, s)"
  using assms by (cases "best_hit_loop l 0 None") (simp add: anchor_step_def set_status_def)

lemma anchor_step_sentinel:
  assumes "snd (best_hit_loop l 0 None) = Some bh" "[] \<in> set (hit_functions bh)"
  shows "anchor_step read a l c avg cov ref s
         = Some (Returned, read\<lparr>status := ''nofunction''\<rparr>, l, s)"
  using assms by (cases "best_hit_loop l 0 None") (simp add: anchor_step_def set_status_def)


lemma compare_loop_first:
  assumes "\<forall>h\<in>set pre. \<not> (q_start h = hs \<and> q_end h = he)"
    and "q_start a = hs" "q_end a = he"
    and "anchor_step read a l c avg cov ref s = Some (Returned, read', l', s')"
  shows "compare_loop (pre @ a # post) hs he read l c avg cov ref s = Some (None, read', s')"
  using assms by (induction pre) auto

text \<open>
  C3: the bitscore window keeps a validation hit if and only if its bitscore is strictly
  greater than best\_bitscore * (1 - bitscore\_range\_cutoff), the bound being the float
  the code computes (the subtraction rounded, then the product rounded); a hit whose
  bitscore equals that bound is not kept. In the example the best bitscore is 110.0 and
  the cutoff 0.03: the hit of bitscore 106.7 is the bound itself and is dropped (it is
  above the product taken without rounding), the hits of bitscore 107.0 and 110.0 are
  kept.
\<close>

theorem bitscore_window_strict:
  "(new_hit \<in> set (bitscore_window best_bitscore bitscore_range_cutoff new_hit_list) \<longleftrightarrow>
      new_hit \<in> set new_hit_list \<and>
      bitscore new_hit > float_mul best_bitscore (float_sub 1 bitscore_range_cutoff)) \<and>
   (bitscore new_hit = float_mul best_bitscore (float_sub 1 bitscore_range_cutoff) \<longrightarrow>
      new_hit \<notin> set (bitscore_window best_bitscore bitscore_range_cutoff new_hit_list))"
  by (simp add: bitscore_window_def)

theorem bitscore_window_strict_witness:
  "example_hit ''S2'' (round_double (1067 / 10)) [''F1'']
     \<in> set [example_hit ''S1'' 110 [''F1''], example_hit ''S2'' (round_double (1067 / 10)) [''F1''],
            example_hit ''S3'' 107 [''F1'']] \<and>
   bitscore (example_hit ''S2'' (round_double (1067 / 10)) [''F1''])
     = float_mul 110 (float_sub 1 (round_double (3 / 100))) \<and>
   bitscore (example_hit ''S2'' (round_double (1067 / 10)) [''F1''])
     > 110 * (1 - round_double (3 / 100)) \<and>
   bitscore_window 110 (round_double (3 / 100))
     [example_hit ''S1'' 110 [''F1''], example_hit ''S2'' (round_double (1067 / 10)) [''F1''],
      example_hit ''S3'' 107 [''F1'']]
   = [example_hit ''S1'' 110 [''F1''], example_hit ''S3'' 107 [''F1'']]"
  using bitscore_window_strict [of "example_hit ''S2'' (round_double (1067 / 10)) [''F1'']" 110
      "round_double (3 / 100)"
      "[example_hit ''S1'' 110 [''F1''], example_hit ''S2'' (round_double (1067 / 10)) [''F1''],
        example_hit ''S3'' 107 [''F1'']]"]
  by (simp add: bitscore_window_def example_hit_def fl_eval)

text \<open>
  C4: after the window filter and before the functions are tallied, the anchor hit is
  appended to the kept hits exactly when its subject is not the subject of a hit the
  window kept and its bitscore is at least best\_bitscore; otherwise the kept hits are
  left as the window gave them.
\<close>

theorem readmit_rule:
  "(subject_id anchor
      \<notin> set (map subject_id (bitscore_window best_bitscore bitscore_range_cutoff new_hit_list)) \<and>
    bitscore anchor \<ge> best_bitscore \<longrightarrow>
      readmit anchor best_bitscore
        (bitscore_window best_bitscore bitscore_range_cutoff new_hit_list)
      = bitscore_window best_bitscore bitscore_range_cutoff new_hit_list @ [anchor]) \<and>
   (subject_id anchor
      \<in> set (map subject_id (bitscore_window best_bitscore bitscore_range_cutoff new_hit_list)) \<or>
    bitscore anchor < best_bitscore \<longrightarrow>
      readmit anchor best_bitscore
        (bitscore_window best_bitscore bitscore_range_cutoff new_hit_list)
      = bitscore_window best_bitscore bitscore_range_cutoff new_hit_list)"
  by (auto simp: readmit_def)

theorem readmit_rule_witness:
  "readmit (example_hit ''R1'' 60 [''F1'']) 50
     (bitscore_window 50 (3 / 100) [example_hit ''S1'' 50 [''F1'']])
     = [example_hit ''S1'' 50 [''F1''], example_hit ''R1'' 60 [''F1'']] \<and>
   readmit (example_hit ''S1'' 60 [''F1'']) 50
     (bitscore_window 50 (3 / 100) [example_hit ''S1'' 50 [''F1'']])
     = [example_hit ''S1'' 50 [''F1'']] \<and>
   readmit (example_hit ''R1'' 40 [''F1'']) 50
     (bitscore_window 50 (3 / 100) [example_hit ''S1'' 50 [''F1'']])
     = [example_hit ''S1'' 50 [''F1'']]"
  using readmit_rule [of "example_hit ''R1'' 60 [''F1'']" 50 "3 / 100"
      "[example_hit ''S1'' 50 [''F1'']]"]
    readmit_rule [of "example_hit ''S1'' 60 [''F1'']" 50 "3 / 100"
      "[example_hit ''S1'' 50 [''F1'']]"]
    readmit_rule [of "example_hit ''R1'' 40 [''F1'']" 50 "3 / 100"
      "[example_hit ''S1'' 50 [''F1'']]"]
  by (simp add: example_hit_def bitscore_window_def fl_eval)

text \<open>
  C6: when the query holds a hit on the interval asked for, and the validation list has
  no hit (or no best hit at all), or the functions of its best hit hold the
  empty-function sentinel, the call returns without an exception and only the status of
  the query has changed, to nofunction: its scores, its hit list and its taxonomy id are
  as before, and so are the taxonomy tables.
\<close>

theorem no_best_hit_nofunction:
  assumes "\<exists>h\<in>set (hits (hit_list read)). q_start h = hit_start \<and> q_end h = hit_end"
    and "hits new_hit_list = [] \<or>
         snd (best_hit_loop (hits new_hit_list) 0 None) = None \<or>
         (\<exists>best_hit. snd (best_hit_loop (hits new_hit_list) 0 None) = Some best_hit \<and>
                      [] \<in> set (hit_functions best_hit))"
  shows "compare_hits_lca read hit_start hit_end new_hit_list bitscore_range_cutoff
           average_coverage taxonomy_data ref_data coverage_data
         = Some (None, read\<lparr>status := ''nofunction''\<rparr>, taxonomy_data)"
proof -
  from assms(1) obtain pre a post where
    sp: "hits (hit_list read) = pre @ a # post" "q_start a = hit_start \<and> q_end a = hit_end"
        "\<forall>h\<in>set pre. \<not> (q_start h = hit_start \<and> q_end h = hit_end)"
    using split_list_first_prop [of "hits (hit_list read)"
        "\<lambda>h. q_start h = hit_start \<and> q_end h = hit_end"]
    by blast
  have step: "anchor_step read a (hits new_hit_list) bitscore_range_cutoff average_coverage cov
                ref_data taxonomy_data
              = Some (Returned, read\<lparr>status := ''nofunction''\<rparr>, hits new_hit_list,
                      taxonomy_data)" for cov
    using assms(2)
  proof (elim disjE exE conjE)
    assume "hits new_hit_list = []"
    then show ?thesis by (simp add: anchor_step_no_best)
  next
    assume "snd (best_hit_loop (hits new_hit_list) 0 None) = None"
    then show ?thesis by (rule anchor_step_no_best)
  next
    fix best_hit
    assume "snd (best_hit_loop (hits new_hit_list) 0 None) = Some best_hit"
      "[] \<in> set (hit_functions best_hit)"
    then show ?thesis by (rule anchor_step_sentinel)
  qed
  show ?thesis
    unfolding compare_hits_lca_def sp(1)
    by (rule compare_loop_first [OF sp(3) _ _ step]) (simp_all add: sp(2))
qed

theorem no_best_hit_nofunction_witness:
  "compare_hits_lca example_read 1 100 (DiamondHitList ''P1|1|100'') (3 / 100) 0 init_taxonomy
     example_ref None = Some (None, example_read\<lparr>status := ''nofunction''\<rparr>, init_taxonomy) \<and>
   compare_hits_lca example_read 1 100
     \<lparr>list_query_id = ''P1|1|100'',
      hits = [example_hit ''S9'' 50 [[]], example_hit ''S1'' 40 [''F1'']]\<rparr>
     (3 / 100) 0 init_taxonomy example_ref None
   = Some (None, example_read\<lparr>status := ''nofunction''\<rparr>, init_taxonomy)"
  using no_best_hit_nofunction [of example_read 1 100 "DiamondHitList ''P1|1|100''" "3 / 100" 0
      init_taxonomy example_ref None]
    no_best_hit_nofunction [of example_read 1 100
      "\<lparr>list_query_id = ''P1|1|100'',
        hits = [example_hit ''S9'' 50 [[]], example_hit ''S1'' 40 [''F1'']]\<rparr>"
      "3 / 100" 0 init_taxonomy example_ref None]
  by (simp add: example_read_def example_hit_def DiamondHitList_def)



lemma best_hit_loop_max:
  "best_hit_loop l b0 h0 = (b, r) \<Longrightarrow> b0 \<le> b \<and> (\<forall>h\<in>set l. bitscore h \<le> b)"
proof (induction l arbitrary: b0 h0)
  case Nil
  then show ?case by simp
next
  case (Cons x xs)
  show ?case
  proof (cases "bitscore x > b0")
    case True
    with Cons.prems have "best_hit_loop xs (bitscore x) (Some x) = (b, r)" by simp
    from Cons.IH [OF this] True show ?thesis by auto
  next
    case False
    with Cons.prems have "best_hit_loop xs b0 h0 = (b, r)" by simp
    from Cons.IH [OF this] False show ?thesis by auto
  qed
qed

lemma counter_incr_nonempty: "counter_incr c f \<noteq> []"
  by (cases c) (auto split: if_splits)

lemma tally_hit_counter:
  "fs \<noteq> [] \<or> fst acc \<noteq> [] \<Longrightarrow> fst (tally_hit h fs acc) \<noteq> []"
proof (induction fs arbitrary: acc)
  case Nil
  then show ?case by simp
next
  case (Cons f fs)
  obtain c d where acc: "acc = (c, d)" by (cases acc)
  have "fst (counter_incr c f, dict_offer d f h) \<noteq> []" by (simp add: counter_incr_nonempty)
  then show ?case using Cons.IH [of "(counter_incr c f, dict_offer d f h)"] acc by simp
qed

lemma tally_counter:
  "(\<exists>h\<in>set l. hit_functions h \<noteq> []) \<or> fst acc \<noteq> [] \<Longrightarrow> fst (tally l acc) \<noteq> []"
proof (induction l arbitrary: acc)
  case Nil
  then show ?case by simp
next
  case (Cons h l)
  show ?case
  proof (cases "hit_functions h \<noteq> [] \<or> fst acc \<noteq> []")
    case True
    then have "fst (tally_hit h (hit_functions h) acc) \<noteq> []" by (rule tally_hit_counter)
    then show ?thesis using Cons.IH by simp
  next
    case False
    then have "tally_hit h (hit_functions h) acc = acc" by simp
    moreover from False Cons.prems have "\<exists>h\<in>set l. hit_functions h \<noteq> []" by auto
    ultimately show ?thesis using Cons.IH by simp
  qed
qed

lemma annotate_hit_functions: "hit_functions (annotate_hit ref_data h) \<noteq> []"
  by (simp add: annotate_hit_def)

lemma bitscore_window_empty:
  assumes "best_hit_loop l 0 None = (b, r)" and "round_double b = b"
    and "0 \<le> c" and "c \<le> 1 / 2 ^ 54"
  shows "bitscore_window b c l = []"
proof -
  from best_hit_loop_max [OF assms(1)] have "\<forall>h\<in>set l. \<not> bitscore h > b" by auto
  then show ?thesis
    by (simp add: bitscore_window_def bound_is_best [OF assms(2-4)] filter_empty_conv)
qed

text \<open>
  C10 as stated fails: a strictly positive cutoff does not put the best hit inside the
  window. The bound is computed in floats, and for a positive cutoff up to \<open>2 ^ -54\<close> the
  subtraction \<^verbatim>\<open>1.0 - bitscore_range_cutoff\<close> gives 1.0, so the bound is the best bitscore
  itself. With the cutoff \<open>2 ^ -60\<close>, and with the float \<^verbatim>\<open>1e-17\<close>, the one validation hit
  (bitscore 50.0) is the best hit and is dropped, the anchor (bitscore 10.0) is not
  re-admitted, and \<^verbatim>\<open>most_common(1)[0]\<close> raises \<^verbatim>\<open>IndexError\<close> after the status has been
  set to function.
\<close>

theorem positive_cutoff_empty_window:
  "(0 :: real) < 1 / 2 ^ 60 \<and> round_double (1 / 2 ^ 60) = 1 / 2 ^ 60 \<and>
   best_hit_loop (map (annotate_hit example_ref) [example_hit ''S1'' 50 []]) 0 None
     = (50, Some (example_hit ''S1'' 50 [''F1''])) \<and>
   bitscore_window 50 (1 / 2 ^ 60) (map (annotate_hit example_ref) [example_hit ''S1'' 50 []])
     = [] \<and>
   compare_hits_lca example_read 1 100
     \<lparr>list_query_id = ''P1|1|100'',
      hits = map (annotate_hit example_ref) [example_hit ''S1'' 50 []]\<rparr>
     (1 / 2 ^ 60) 0 init_taxonomy example_ref None
   = Some (Some IndexError, example_read\<lparr>status := ''function''\<rparr>, init_taxonomy) \<and>
   0 < round_double (1 / 10 ^ 17) \<and>
   compare_hits_lca example_read 1 100
     \<lparr>list_query_id = ''P1|1|100'',
      hits = map (annotate_hit example_ref) [example_hit ''S1'' 50 []]\<rparr>
     (round_double (1 / 10 ^ 17)) 0 init_taxonomy example_ref None
   = Some (Some IndexError, example_read\<lparr>status := ''function''\<rparr>, init_taxonomy)"
proof (intro conjI)
  show "(0 :: real) < 1 / 2 ^ 60" by simp
  show "round_double (1 / 2 ^ 60) = 1 / 2 ^ 60" by (simp add: fl_eval)
  show "best_hit_loop (map (annotate_hit example_ref) [example_hit ''S1'' 50 []]) 0 None
     = (50, Some (example_hit ''S1'' 50 [''F1'']))"
    by (simp add: example_hit_def example_ref_def annotate_hit_def)
  show "bitscore_window 50 (1 / 2 ^ 60)
      (map (annotate_hit example_ref) [example_hit ''S1'' 50 []]) = []"
    by (simp add: example_hit_def example_ref_def annotate_hit_def bitscore_window_def fl_eval)
  show "compare_hits_lca example_read 1 100
     \<lparr>list_query_id = ''P1|1|100'',
      hits = map (annotate_hit example_ref) [example_hit ''S1'' 50 []]\<rparr>
     (1 / 2 ^ 60) 0 init_taxonomy example_ref None
   = Some (Some IndexError, example_read\<lparr>status := ''function''\<rparr>, init_taxonomy)"
    by (simp add: compare_hits_lca_def example_read_def example_hit_def example_ref_def
        annotate_hit_def anchor_step_def set_status_def bitscore_window_def readmit_def
        most_common1_def fl_eval)
  show "0 < round_double (1 / 10 ^ 17)" by (simp add: fl_eval)
  show "compare_hits_lca example_read 1 100
     \<lparr>list_query_id = ''P1|1|100'',
      hits = map (annotate_hit example_ref) [example_hit ''S1'' 50 []]\<rparr>
     (round_double (1 / 10 ^ 17)) 0 init_taxonomy example_ref None
   = Some (Some IndexError, example_read\<lparr>status := ''function''\<rparr>, init_taxonomy)"
    by (simp add: compare_hits_lca_def example_read_def example_hit_def example_ref_def
        annotate_hit_def anchor_step_def set_status_def bitscore_window_def readmit_def
        most_common1_def fl_eval)
qed

text \<open>
  C10, amended: the cutoff has to be above \<open>2 ^ -54\<close>, not only above 0. When the
  annotated validation hits have a best hit, its bitscore (a float) is strictly positive,
  and it passes the window exactly when the bound the code computes,
  \<^verbatim>\<open>best_bitscore * (1.0 - bitscore_range_cutoff)\<close> in floats, is strictly below the best
  bitscore. For a best bitscore above \<open>2 ^ -1022\<close> (the smallest normal float) and a cutoff
  above \<open>2 ^ -54\<close> the best hit passes the window, the kept hits are not empty and the most
  common function is not looked up in an empty counter (no \<^verbatim>\<open>IndexError\<close>). Every kept
  hit (the anchor, annotated, among them when it is re-admitted) carries at least one
  function entry. With a cutoff from 0 to \<open>2 ^ -54\<close> the bound is the best bitscore, the
  window keeps no hit at all, and when the anchor is below the best bitscore the lookup
  is made in an empty counter; on the example with cutoff 0 the call does raise
  \<^verbatim>\<open>IndexError\<close>, after the status has been set to function.
\<close>

theorem best_hit_inside_window:
  assumes "best_hit_loop (map (annotate_hit ref_data) raw_hits) 0 None
           = (best_bitscore, Some best_hit)"
    and "round_double best_bitscore = best_bitscore"
  shows "0 < bitscore best_hit \<and>
     (best_hit \<in> set (bitscore_window best_bitscore bitscore_range_cutoff
                        (map (annotate_hit ref_data) raw_hits)) \<longleftrightarrow>
        float_mul best_bitscore (float_sub 1 bitscore_range_cutoff) < best_bitscore) \<and>
     (pow2 (- 1022) < best_bitscore \<and> 1 / 2 ^ 54 < bitscore_range_cutoff \<longrightarrow>
        best_hit \<in> set (bitscore_window best_bitscore bitscore_range_cutoff
                          (map (annotate_hit ref_data) raw_hits)) \<and>
        readmit (annotate_hit ref_data raw_anchor) best_bitscore
          (bitscore_window best_bitscore bitscore_range_cutoff
             (map (annotate_hit ref_data) raw_hits)) \<noteq> [] \<and>
        most_common1 (fst (tally (readmit (annotate_hit ref_data raw_anchor) best_bitscore
                 (bitscore_window best_bitscore bitscore_range_cutoff
                    (map (annotate_hit ref_data) raw_hits))) ([], []))) \<noteq> Inl IndexError) \<and>
     (\<forall>h\<in>set (readmit (annotate_hit ref_data raw_anchor) best_bitscore
                 (bitscore_window best_bitscore bitscore_range_cutoff
                    (map (annotate_hit ref_data) raw_hits))). hit_functions h \<noteq> []) \<and>
     (0 \<le> bitscore_range_cutoff \<and> bitscore_range_cutoff \<le> 1 / 2 ^ 54 \<longrightarrow>
        bitscore_window best_bitscore bitscore_range_cutoff
          (map (annotate_hit ref_data) raw_hits) = [] \<and>
        (bitscore (annotate_hit ref_data raw_anchor) < best_bitscore \<longrightarrow>
           most_common1 (fst (tally (readmit (annotate_hit ref_data raw_anchor) best_bitscore
                 (bitscore_window best_bitscore bitscore_range_cutoff
                    (map (annotate_hit ref_data) raw_hits))) ([], []))) = Inl IndexError)) \<and>
     compare_hits_lca example_read 1 100
       \<lparr>list_query_id = ''P1|1|100'', hits = map (annotate_hit example_ref) [example_hit ''S1'' 50 []]\<rparr>
       0 0 init_taxonomy example_ref None
     = Some (Some IndexError, example_read\<lparr>status := ''function''\<rparr>, init_taxonomy)"
proof -
  let ?l = "map (annotate_hit ref_data) raw_hits"
  let ?w = "bitscore_window best_bitscore bitscore_range_cutoff ?l"
  let ?k = "readmit (annotate_hit ref_data raw_anchor) best_bitscore ?w"
  let ?bound = "float_mul best_bitscore (float_sub 1 bitscore_range_cutoff)"
  from best_hit_loop_Some [OF assms(1)]
  have bh: "best_hit \<in> set ?l" "bitscore best_hit = best_bitscore" "0 < best_bitscore" by auto
  from bh have inw: "best_hit \<in> set ?w \<longleftrightarrow> ?bound < best_bitscore"
    by (simp add: bitscore_window_def)
  have fs: "\<forall>h\<in>set ?k. hit_functions h \<noteq> []"
    by (auto simp: readmit_def bitscore_window_def annotate_hit_functions split: if_splits)
  have kept: "best_hit \<in> set ?w \<and> ?k \<noteq> [] \<and>
      most_common1 (fst (tally ?k ([], []))) \<noteq> Inl IndexError"
    if "pow2 (- 1022) < best_bitscore \<and> 1 / 2 ^ 54 < bitscore_range_cutoff"
  proof -
    from that have "?bound < best_bitscore"
      by (intro bound_below_best_float [OF assms(2)]) simp_all
    with inw have w: "best_hit \<in> set ?w" by simp
    then have ink: "best_hit \<in> set ?k" by (simp add: readmit_def)
    then have ne: "?k \<noteq> []" by auto
    from ink fs have "fst (tally ?k ([], [])) \<noteq> []" by (intro tally_counter) auto
    then have "most_common1 (fst (tally ?k ([], []))) \<noteq> Inl IndexError"
      by (cases "fst (tally ?k ([], []))") (simp_all add: most_common1_def)
    with w ne show ?thesis by simp
  qed
  have empty: "?w = [] \<and> (bitscore (annotate_hit ref_data raw_anchor) < best_bitscore \<longrightarrow>
      most_common1 (fst (tally ?k ([], []))) = Inl IndexError)"
    if "0 \<le> bitscore_range_cutoff \<and> bitscore_range_cutoff \<le> 1 / 2 ^ 54"
  proof -
    from that have w: "?w = []"
      by (intro bitscore_window_empty [OF assms(1) assms(2)]) simp_all
    then show ?thesis by (simp add: readmit_def most_common1_def)
  qed
  have ex: "compare_hits_lca example_read 1 100
       \<lparr>list_query_id = ''P1|1|100'', hits = map (annotate_hit example_ref) [example_hit ''S1'' 50 []]\<rparr>
       0 0 init_taxonomy example_ref None
     = Some (Some IndexError, example_read\<lparr>status := ''function''\<rparr>, init_taxonomy)"
    by (simp add: compare_hits_lca_def example_read_def example_hit_def example_ref_def
        annotate_hit_def anchor_step_def set_status_def bitscore_window_def readmit_def
        most_common1_def fl_eval)
  from bh(2,3) inw fs kept empty ex show ?thesis by blast
qed

theorem best_hit_inside_window_witness:
  "best_hit_loop (map (annotate_hit example_ref) [example_hit ''S1'' 50 [], example_hit ''S7'' 49 []]) 0 None
     = (50, Some (example_hit ''S1'' 50 [''F1''])) \<and>
   round_double 50 = 50 \<and> pow2 (- 1022) < 50 \<and> 1 / 2 ^ 54 < round_double (3 / 100) \<and>
   readmit (annotate_hit example_ref (example_hit ''R1'' 10 [])) 50
     (bitscore_window 50 (round_double (3 / 100))
        (map (annotate_hit example_ref) [example_hit ''S1'' 50 [], example_hit ''S7'' 49 []]))
   = [example_hit ''S1'' 50 [''F1''], example_hit ''S7'' 49 [[]]] \<and>
   most_common1 (fst (tally (readmit (annotate_hit example_ref (example_hit ''R1'' 10 [])) 50
     (bitscore_window 50 (round_double (3 / 100))
        (map (annotate_hit example_ref) [example_hit ''S1'' 50 [], example_hit ''S7'' 49 []]))) ([], [])))
   = Inr ''F1'' \<and>
   (0 :: real) \<le> 1 / 2 ^ 60 \<and> (1 / 2 ^ 60 :: real) \<le> 1 / 2 ^ 54 \<and>
   bitscore (annotate_hit example_ref (example_hit ''R1'' 10 [])) < 50 \<and>
   most_common1 (fst (tally (readmit (annotate_hit example_ref (example_hit ''R1'' 10 [])) 50
     (bitscore_window 50 (1 / 2 ^ 60)
        (map (annotate_hit example_ref) [example_hit ''S1'' 50 [], example_hit ''S7'' 49 []]))) ([], [])))
   = Inl IndexError"
  using best_hit_inside_window [of example_ref "[example_hit ''S1'' 50 [], example_hit ''S7'' 49 []]"
      50 "example_hit ''S1'' 50 [''F1'']" "round_double (3 / 100)" "example_hit ''R1'' 10 []"]
    best_hit_inside_window [of example_ref "[example_hit ''S1'' 50 [], example_hit ''S7'' 49 []]"
      50 "example_hit ''S1'' 50 [''F1'']" "1 / 2 ^ 60" "example_hit ''R1'' 10 []"]
  by (simp add: example_hit_def example_ref_def annotate_hit_def bitscore_window_def readmit_def
        most_common1_def fl_eval)


section \<open>Properties of the two passes\<close>

text \<open>
  C1 (empty input): on an input of no rows the reference pass returns with the reads as
  they were. Both background passes do not: \<^verbatim>\<open>_hit_list\<close> is still \<^verbatim>\<open>None\<close> after the
  loop, and the closing block calls \<^verbatim>\<open>_hit_list.annotate_hits\<close> on it, which raises
  \<^verbatim>\<open>AttributeError\<close>.
\<close>

theorem empty_input_passes:
  "parse_reference_output cfg ref_data [] rd = Inr rd \<and>
   parse_background_output cfg ref_data coverage_data [] rd s = Some (Inl AttributeError) \<and>
   DiamondParser_parse_background_output cmp cfg ref_data imported [] rd s
     = Some (Inl AttributeError)"
  by (simp add: parse_reference_output_def parse_background_output_def
      DiamondParser_parse_background_output_def DiamondHitList_def hits_number_def
      average_coverage_of_def py_truediv_def)

lemma create_hit_fields:
  "identity (create_hit r) = identity r" "length_hit (create_hit r) = length_hit r"
  "query_id (create_hit r) = query_id r"
  by (simp_all add: create_hit_def)

lemma passes_cutoffs_create_hit: "passes_cutoffs cfg (create_hit r) = passes_cutoffs cfg r"
  by (simp add: passes_cutoffs_def create_hit_fields)

lemma accept_hits_nonempty: "kept \<noteq> [] \<Longrightarrow> accept_hits c cs kept \<noteq> []"
  by (induction cs arbitrary: kept) auto

lemma accept_hits_Nil_iff: "accept_hits c cs [] = [] \<longleftrightarrow> cs = []"
  by (cases cs) (auto simp: accept_hits_nonempty)

lemma sort_key_Nil_iff: "sort_key f xs = [] \<longleftrightarrow> xs = []"
  using length_sort [of f xs] by (metis length_0_conv)

lemma filter_list_hits_Nil_iff: "hits (filter_list c l) = [] \<longleftrightarrow> hits l = []"
  by (simp add: filter_list_def accept_hits_Nil_iff sort_key_Nil_iff)

lemma filter_list_query_id: "list_query_id (filter_list c l) = list_query_id l"
  by (simp add: filter_list_def)

lemma annotate_hits_Nil_iff: "hits (annotate_hits r l) = [] \<longleftrightarrow> hits l = []"
  by (simp add: annotate_hits_def)

lemma reference_loop_append:
  "reference_loop cfg ref_data (rows @ rows') cur l rd =
     (case reference_loop cfg ref_data rows cur l rd of
        Inl e \<Rightarrow> Inl e
      | Inr (cur', l', rd') \<Rightarrow> reference_loop cfg ref_data rows' cur' l' rd')"
proof (induction rows arbitrary: cur l rd)
  case Nil
  then show ?case by simp
next
  case (Cons row rows)
  show ?case
    by (simp add: Cons.IH Let_def split: sum.splits prod.splits)
qed

lemma reference_loop_same:
  assumes "\<forall>r\<in>set rows'. \<exists>e. parse_fastq_seqid (query_id r) = Inr (q, e)"
  shows "reference_loop cfg ref_data rows' q l rd =
           Inr (q, l\<lparr>hits := hits l @ filter (passes_cutoffs cfg)
                                   (map (\<lambda>r. create_hit (r\<lparr>query_id := q\<rparr>)) rows')\<rparr>, rd)"
  using assms
proof (induction rows' arbitrary: l)
  case Nil
  then show ?case by simp
next
  case (Cons r rows')
  from Cons.prems obtain e where e: "parse_fastq_seqid (query_id r) = Inr (q, e)" by auto
  from Cons.prems have rest: "\<forall>r\<in>set rows'. \<exists>e. parse_fastq_seqid (query_id r) = Inr (q, e)"
    by simp
  show ?case
    by (simp add: e Cons.IH [OF rest] passes_cutoffs_def create_hit_def add_hit_def Let_def)
qed

lemma reference_loop_other:
  assumes "\<forall>r\<in>set rows'. \<exists>e. parse_fastq_seqid (query_id r) = Inr (q', e)" and "q' \<noteq> cur"
  shows "reference_loop cfg ref_data rows' cur l rd =
           (let kept = filter (passes_cutoffs cfg)
                         (map (\<lambda>r. create_hit (r\<lparr>query_id := q'\<rparr>)) rows')
            in if kept = [] then Inr (cur, l, rd)
               else Inr (q', \<lparr>list_query_id = q', hits = kept\<rparr>,
                         (let l' = filter_list (get_overlap_cutoff cfg) l in
                          if hits_number l' \<noteq> 0
                          then rd(cur \<mapsto> (AnnotatedRead cur)\<lparr>hit_list := annotate_hits ref_data l'\<rparr>)
                          else rd)))"
  using assms(1)
proof (induction rows')
  case Nil
  then show ?case by simp
next
  case (Cons r rows')
  from Cons.prems obtain e where e: "parse_fastq_seqid (query_id r) = Inr (q', e)" by auto
  from Cons.prems have rest: "\<forall>r\<in>set rows'. \<exists>e. parse_fastq_seqid (query_id r) = Inr (q', e)"
    by simp
  show ?case
  proof (cases "passes_cutoffs cfg (create_hit (r\<lparr>query_id := q'\<rparr>))")
    case True
    then have c: "\<not> identity r < get_identity_cutoff cfg" "\<not> length_hit r < get_length_cutoff cfg"
      by (simp_all add: passes_cutoffs_def create_hit_def)
    show ?thesis
      using assms(2) True c
      by (simp add: e reference_loop_same [OF rest] create_hit_def
          add_hit_def DiamondHitList_def Let_def)
  next
    case False
    then have c: "identity r < get_identity_cutoff cfg \<or> length_hit r < get_length_cutoff cfg"
      by (simp add: passes_cutoffs_def create_hit_def)
    show ?thesis
      using Cons.IH [OF rest] False c
      by (auto simp add: e create_hit_def Let_def)
  qed
qed

lemma reference_end_eq:
  "(if hits_number l \<noteq> 0
    then rd(cur \<mapsto> (AnnotatedRead cur)\<lparr>hit_list := annotate_hits ref_data
                                       (filter_list c l)\<rparr>)
    else rd) =
   (let l' = filter_list c l in
    if hits_number l' \<noteq> 0
    then rd(cur \<mapsto> (AnnotatedRead cur)\<lparr>hit_list := annotate_hits ref_data l'\<rparr>)
    else rd)"
  by (simp add: hits_number_def filter_list_hits_Nil_iff Let_def)

lemma background_loop_append:
  "background_loop cfg ref_data avg cov (rows @ rows') cur rd s =
     (case background_loop cfg ref_data avg cov rows cur rd s of
        None \<Rightarrow> None
      | Some (Inl e) \<Rightarrow> Some (Inl e)
      | Some (Inr (cur', rd', s')) \<Rightarrow> background_loop cfg ref_data avg cov rows' cur' rd' s')"
proof (induction rows arbitrary: cur rd s)
  case Nil
  then show ?case by simp
next
  case (Cons row rows)
  show ?case
    by (simp add: Cons.IH Let_def split: sum.splits prod.splits option.splits)
qed

lemma background_loop_same:
  assumes "\<forall>r\<in>set rows'. query_id r = q"
  shows "background_loop cfg ref_data avg cov rows' (Some (q, l)) rd s =
           Some (Inr (Some (q, l\<lparr>hits := hits l @ filter (passes_cutoffs cfg)
                                                (map create_hit rows')\<rparr>), rd, s))"
  using assms
proof (induction rows' arbitrary: l)
  case Nil
  then show ?case by simp
next
  case (Cons r rows')
  then show ?case
    by (simp add: passes_cutoffs_create_hit create_hit_fields add_hit_def Let_def)
       (simp add: passes_cutoffs_def)
qed

lemma background_loop_other:
  assumes "\<forall>r\<in>set rows'. query_id r = q'" and "q' \<noteq> cur"
  shows "background_loop cfg ref_data avg cov rows' (Some (cur, l)) rd s =
           (let kept = filter (passes_cutoffs cfg) (map create_hit rows')
            in if kept = [] then Some (Inr (Some (cur, l), rd, s))
               else (case compare_group cfg ref_data avg cov cur l rd s of
                       None \<Rightarrow> None
                     | Some (Inl e) \<Rightarrow> Some (Inl e)
                     | Some (Inr (rd', s')) \<Rightarrow>
                         Some (Inr (Some (q', \<lparr>list_query_id = q', hits = kept\<rparr>), rd', s'))))"
  using assms(1)
proof (induction rows')
  case Nil
  then show ?case by simp
next
  case (Cons r rows')
  from Cons.prems have q: "query_id r = q'" and rest: "\<forall>r\<in>set rows'. query_id r = q'"
    by simp_all
  show ?case
  proof (cases "passes_cutoffs cfg (create_hit r)")
    case True
    then have c: "\<not> identity r < get_identity_cutoff cfg" "\<not> length_hit r < get_length_cutoff cfg"
      by (simp_all add: passes_cutoffs_def create_hit_fields)
    show ?thesis
      using assms(2) True c q
      by (simp add: background_loop_same [OF rest] create_hit_fields add_hit_def
          DiamondHitList_def Let_def split: option.splits sum.splits prod.splits)
  next
    case False
    then have c: "identity r < get_identity_cutoff cfg \<or> length_hit r < get_length_cutoff cfg"
      by (simp add: passes_cutoffs_def create_hit_fields)
    show ?thesis
      using Cons.IH [OF rest] False c
      by (auto simp add: create_hit_fields Let_def)
  qed
qed

lemma compare_group_frame:
  assumes "compare_group cfg ref_data avg cov q l rd s = Some (Inr (rd', s'))"
    and "decode_protein_id q = Inr (p, a, b)" and "k \<noteq> p"
  shows "rd' k = rd k"
  using assms
  by (auto simp: compare_group_def Let_def split: option.splits sum.splits prod.splits)

text \<open>
  C7 (the last group is closed like an interior one). Reference pass: when the rows read
  so far leave the group \<open>l\<close> of the query \<open>cur\<close> in flight, the result at end of input is
  the finalization of that group, and when rows of another query follow, the result is
  that same finalization followed by the finalization of the other query's surviving
  rows; the entry of \<open>cur\<close> is the same in both. Background pass (protein pipeline): the
  result at end of input is the closing block on the group in flight, and when rows of
  another query follow, the result is that same closing block followed by the closing
  block on the other query's surviving rows (or nothing more when none survives); every
  entry but the one of the other query's base id is then the same in both.
\<close>

theorem last_group_as_interior:
  "(reference_loop cfg ref_data rows [] (DiamondHitList []) rd = Inr (cur, l, mid) \<and>
    (\<forall>r\<in>set rows'. \<exists>e. parse_fastq_seqid (query_id r) = Inr (q', e)) \<and> q' \<noteq> cur \<longrightarrow>
      parse_reference_output cfg ref_data rows rd = Inr (finalize_group cfg ref_data cur l mid) \<and>
      parse_reference_output cfg ref_data (rows @ rows') rd
        = Inr (finalize_group cfg ref_data q'
                 \<lparr>list_query_id = q',
                  hits = filter (passes_cutoffs cfg)
                           (map (\<lambda>r. create_hit (r\<lparr>query_id := q'\<rparr>)) rows')\<rparr>
                 (finalize_group cfg ref_data cur l mid)) \<and>
      finalize_group cfg ref_data q'
         \<lparr>list_query_id = q',
          hits = filter (passes_cutoffs cfg)
                   (map (\<lambda>r. create_hit (r\<lparr>query_id := q'\<rparr>)) rows')\<rparr>
         (finalize_group cfg ref_data cur l mid) cur
        = finalize_group cfg ref_data cur l mid cur) \<and>
   (average_coverage_of coverage_data = Inr avg \<and>
    background_loop cfg ref_data avg coverage_data brows None rd s
      = Some (Inr (Some (bcur, bl), bmid, s1)) \<and>
    (\<forall>r\<in>set brows'. query_id r = bq') \<and> bq' \<noteq> bcur \<longrightarrow>
      parse_background_output cfg ref_data coverage_data brows rd s
        = compare_group cfg ref_data avg coverage_data bcur bl bmid s1 \<and>
      parse_background_output cfg ref_data coverage_data (brows @ brows') rd s
        = (if filter (passes_cutoffs cfg) (map create_hit brows') = []
           then compare_group cfg ref_data avg coverage_data bcur bl bmid s1
           else (case compare_group cfg ref_data avg coverage_data bcur bl bmid s1 of
                   None \<Rightarrow> None
                 | Some (Inl e) \<Rightarrow> Some (Inl e)
                 | Some (Inr (rd1, s2)) \<Rightarrow>
                     compare_group cfg ref_data avg coverage_data bq'
                       \<lparr>list_query_id = bq',
                        hits = filter (passes_cutoffs cfg) (map create_hit brows')\<rparr> rd1 s2)) \<and>
      (\<forall>rd1 s2 rd2 s3 p a b k.
         compare_group cfg ref_data avg coverage_data bcur bl bmid s1 = Some (Inr (rd1, s2)) \<and>
         parse_background_output cfg ref_data coverage_data (brows @ brows') rd s
           = Some (Inr (rd2, s3)) \<and>
         decode_protein_id bq' = Inr (p, a, b) \<and> k \<noteq> p \<longrightarrow> rd2 k = rd1 k))"
proof (intro conjI impI)
  assume h: "reference_loop cfg ref_data rows [] (DiamondHitList []) rd = Inr (cur, l, mid) \<and>
    (\<forall>r\<in>set rows'. \<exists>e. parse_fastq_seqid (query_id r) = Inr (q', e)) \<and> q' \<noteq> cur"
  let ?kept = "filter (passes_cutoffs cfg) (map (\<lambda>r. create_hit (r\<lparr>query_id := q'\<rparr>)) rows')"
  have fin: "finalize_group cfg ref_data qid g m =
      (let l' = filter_list (get_overlap_cutoff cfg) g in
       if hits_number l' \<noteq> 0
       then m(qid \<mapsto> (AnnotatedRead qid)\<lparr>hit_list := annotate_hits ref_data l'\<rparr>) else m)"
    for qid g m
    by (simp add: finalize_group_def hits_number_def annotate_hits_Nil_iff Let_def)
  show r1: "parse_reference_output cfg ref_data rows rd = Inr (finalize_group cfg ref_data cur l mid)"
    using h
    by (simp add: parse_reference_output_def finalize_group_def hits_number_def
        annotate_hits_Nil_iff filter_list_hits_Nil_iff Let_def)
  have other: "reference_loop cfg ref_data rows' cur l mid =
      (if ?kept = [] then Inr (cur, l, mid)
       else Inr (q', \<lparr>list_query_id = q', hits = ?kept\<rparr>, finalize_group cfg ref_data cur l mid))"
    using reference_loop_other [of rows' q' cur cfg ref_data l mid] h
    by (simp add: fin Let_def)
  have empty: "finalize_group cfg ref_data q' \<lparr>list_query_id = q', hits = []\<rparr> m = m" for m
    by (simp add: finalize_group_def annotate_hits_Nil_iff filter_list_hits_Nil_iff Let_def)
  show "parse_reference_output cfg ref_data (rows @ rows') rd
        = Inr (finalize_group cfg ref_data q' \<lparr>list_query_id = q', hits = ?kept\<rparr>
                 (finalize_group cfg ref_data cur l mid))"
  proof (cases "?kept = []")
    case True
    then show ?thesis
      using h r1 other
      by (simp add: parse_reference_output_def reference_loop_append empty)
  next
    case False
    then show ?thesis
      using h other
      by (simp add: parse_reference_output_def reference_loop_append
          finalize_group_def [of cfg ref_data q'] hits_number_def annotate_hits_Nil_iff
          filter_list_hits_Nil_iff Let_def)
  qed
  show "finalize_group cfg ref_data q' \<lparr>list_query_id = q', hits = ?kept\<rparr>
         (finalize_group cfg ref_data cur l mid) cur = finalize_group cfg ref_data cur l mid cur"
    using h by (auto simp add: finalize_group_def [of cfg ref_data q'] Let_def)
next
  assume h: "average_coverage_of coverage_data = Inr avg \<and>
    background_loop cfg ref_data avg coverage_data brows None rd s
      = Some (Inr (Some (bcur, bl), bmid, s1)) \<and>
    (\<forall>r\<in>set brows'. query_id r = bq') \<and> bq' \<noteq> bcur"
  let ?kept = "filter (passes_cutoffs cfg) (map create_hit brows')"
  let ?last = "compare_group cfg ref_data avg coverage_data bcur bl bmid s1"
  show b1: "parse_background_output cfg ref_data coverage_data brows rd s = ?last"
    using h by (simp add: parse_background_output_def)
  have other: "background_loop cfg ref_data avg coverage_data brows' (Some (bcur, bl)) bmid s1 =
      (if ?kept = [] then Some (Inr (Some (bcur, bl), bmid, s1))
       else (case ?last of
               None \<Rightarrow> None
             | Some (Inl e) \<Rightarrow> Some (Inl e)
             | Some (Inr (rd', s')) \<Rightarrow>
                 Some (Inr (Some (bq', \<lparr>list_query_id = bq', hits = ?kept\<rparr>), rd', s'))))"
    using background_loop_other [of brows' bq' bcur cfg ref_data avg coverage_data bl bmid s1] h
    by (simp add: Let_def)
  show b2: "parse_background_output cfg ref_data coverage_data (brows @ brows') rd s
        = (if ?kept = [] then ?last
           else (case ?last of
                   None \<Rightarrow> None
                 | Some (Inl e) \<Rightarrow> Some (Inl e)
                 | Some (Inr (rd1, s2)) \<Rightarrow>
                     compare_group cfg ref_data avg coverage_data bq'
                       \<lparr>list_query_id = bq', hits = ?kept\<rparr> rd1 s2))"
    using h other
    by (simp add: parse_background_output_def background_loop_append
        split: option.splits sum.splits prod.splits)
  show "\<forall>rd1 s2 rd2 s3 p a b k.
         ?last = Some (Inr (rd1, s2)) \<and>
         parse_background_output cfg ref_data coverage_data (brows @ brows') rd s
           = Some (Inr (rd2, s3)) \<and>
         decode_protein_id bq' = Inr (p, a, b) \<and> k \<noteq> p \<longrightarrow> rd2 k = rd1 k"
  proof (intro allI impI, elim conjE)
    fix rd1 s2 rd2 s3 p a b k
    assume l: "?last = Some (Inr (rd1, s2))"
      and r: "parse_background_output cfg ref_data coverage_data (brows @ brows') rd s
           = Some (Inr (rd2, s3))"
      and d: "decode_protein_id bq' = Inr (p, a, b)" and k: "k \<noteq> p"
    show "rd2 k = rd1 k"
    proof (cases "?kept = []")
      case True
      with b2 l r show ?thesis by simp
    next
      case False
      with b2 l r have "compare_group cfg ref_data avg coverage_data bq'
                       \<lparr>list_query_id = bq', hits = ?kept\<rparr> rd1 s2 = Some (Inr (rd2, s3))"
        by simp
      from compare_group_frame [OF this d k] show ?thesis .
    qed
  qed
qed

theorem last_group_as_interior_witness:
  "parse_reference_output example_cfg example_ref
     ([example_row ''Q1'' ''S1'' 50] @ [example_row ''Q2'' ''S1'' 40]) [''P1'' \<mapsto> example_read]
   = Inr (finalize_group example_cfg example_ref ''Q2''
            \<lparr>list_query_id = ''Q2'', hits = [example_row ''Q2'' ''S1'' 40]\<rparr>
            (finalize_group example_cfg example_ref ''Q1''
               \<lparr>list_query_id = ''Q1'', hits = [example_row ''Q1'' ''S1'' 50]\<rparr>
               [''P1'' \<mapsto> example_read])) \<and>
   parse_background_output example_cfg example_ref []
     ([example_row ''P1|1|100'' ''S1'' 50] @ [example_row ''P2|1|50'' ''S1'' 40])
     [''P1'' \<mapsto> example_read] init_taxonomy
   = (case compare_group example_cfg example_ref 0 [] ''P1|1|100''
             \<lparr>list_query_id = ''P1|1|100'', hits = [example_row ''P1|1|100'' ''S1'' 50]\<rparr>
             [''P1'' \<mapsto> example_read] init_taxonomy of
        None \<Rightarrow> None
      | Some (Inl e) \<Rightarrow> Some (Inl e)
      | Some (Inr (rd1, s2)) \<Rightarrow>
          compare_group example_cfg example_ref 0 [] ''P2|1|50''
            \<lparr>list_query_id = ''P2|1|50'',
             hits = filter (passes_cutoffs example_cfg)
                      (map create_hit [example_row ''P2|1|50'' ''S1'' 40])\<rparr> rd1 s2)"
  using last_group_as_interior [where cfg = example_cfg and ref_data = example_ref
      and rows = "[example_row ''Q1'' ''S1'' 50]" and rd = "[''P1'' \<mapsto> example_read]"
      and cur = "''Q1''"
      and l = "\<lparr>list_query_id = ''Q1'', hits = [example_row ''Q1'' ''S1'' 50]\<rparr>"
      and mid = "[''P1'' \<mapsto> example_read]" and rows' = "[example_row ''Q2'' ''S1'' 40]"
      and q' = "''Q2''"
      and coverage_data = "[]" and avg = 0
      and brows = "[example_row ''P1|1|100'' ''S1'' 50]"
      and s = init_taxonomy and bcur = "''P1|1|100''"
      and bl = "\<lparr>list_query_id = ''P1|1|100'', hits = [example_row ''P1|1|100'' ''S1'' 50]\<rparr>"
      and bmid = "[''P1'' \<mapsto> example_read]" and ?s1.0 = init_taxonomy
      and brows' = "[example_row ''P2|1|50'' ''S1'' 40]" and bq' = "''P2|1|50''"]
  by (simp add: example_cfg_def example_row_def parse_fastq_seqid_def split_def startswith_def
      endswith_def create_hit_def add_hit_def DiamondHitList_def filter_list_def
      hits_number_def average_coverage_of_def passes_cutoffs_def Let_def)

section \<open>Properties of the taxonomy tree\<close>

lemma nodes_get_frame: "nodes_get k f s = (Inr v, s') \<Longrightarrow> s' = s"
  by (auto simp: nodes_get_def dd_get_def split: option.splits)

lemma names_get_frame: "names_get k f s = (Inr v, s') \<Longrightarrow> s' = s"
  by (auto simp: names_get_def dd_get_def split: option.splits)

lemma tx_bind_nodes_getE:
  assumes "tx_bind (nodes_get k f s) g = Some (Inr r, s')"
  obtains v where "nodes_get k f s = (Inr v, s)" "g v s = Some (Inr r, s')"
proof (cases "nodes_get k f s")
  case (Pair a s1)
  show ?thesis
  proof (cases a)
    case (Inl e)
    with Pair assms show ?thesis by (simp add: tx_bind_def)
  next
    case (Inr v)
    with Pair have "s1 = s" by (auto dest: nodes_get_frame)
    with Pair Inr assms that show ?thesis by (simp add: tx_bind_def)
  qed
qed

lemma tx_bind_names_getE:
  assumes "tx_bind (names_get k f s) g = Some (Inr r, s')"
  obtains v where "names_get k f s = (Inr v, s)" "g v s = Some (Inr r, s')"
proof (cases "names_get k f s")
  case (Pair a s1)
  show ?thesis
  proof (cases a)
    case (Inl e)
    with Pair assms show ?thesis by (simp add: tx_bind_def)
  next
    case (Inr v)
    with Pair have "s1 = s" by (auto dest: names_get_frame)
    with Pair Inr assms that show ?thesis by (simp add: tx_bind_def)
  qed
qed

lemma tx_bind_simps:
  "tx_bind (Inr v, s) g = g v s" "tx_bind (Inl e, s) g = Some (Inl e, s)"
  by (simp_all add: tx_bind_def)

lemma tx_bind_pureE:
  assumes "tx_bind (x, s) g = Some (Inr r, s')"
  obtains v where "x = Inr v" "g v s = Some (Inr r, s')"
  using assms by (cases x) (simp_all add: tx_bind_def)

lemma tx_thenE:
  assumes "tx_then m g = Some (Inr r, s')"
  obtains v s1 where "m = Some (Inr v, s1)" "g v s1 = Some (Inr r, s')"
proof (cases m)
  case None
  with assms show ?thesis by (simp add: tx_then_def)
next
  case (Some y)
  obtain a s1 where y: "y = (a, s1)" by (cases y)
  show ?thesis
  proof (cases a)
    case (Inl e)
    with Some y assms show ?thesis by (simp add: tx_then_def tx_bind_def)
  next
    case (Inr v)
    with Some y assms that show ?thesis by (simp add: tx_then_def tx_bind_def)
  qed
qed

lemma lineage_loop_frame:
  assumes "lineage_loop p l d s = Some (Inr r, s')"
  shows "s' = s"
proof -
  have "\<forall>r' t. (Inr r :: py_error + _, s') = (Inr r', t) \<longrightarrow> t = s"
  proof (rule lineage_loop.raw_induct
      [where P = "\<lambda>p l d s y. \<forall>r t. y = (Inr r, t) \<longrightarrow> t = s", OF _ assms])
    fix f parent_id lineage depth s0 y
    assume ih: "\<And>a b c d y. f a b c d = Some y \<Longrightarrow> \<forall>r t. y = (Inr r, t) \<longrightarrow> t = d"
      and body: "tx_bind (nodes_get parent_id ''parent'' s0) (\<lambda>p s'.
         if p \<noteq> ROOT_TAXONOMY_ID
         then (let parent_id' = (if names s' p \<noteq> None then p else UNKNOWN_TAXONOMY_ID)
               in f parent_id' (parent_id' # lineage) (depth + 1) s')
         else Some (Inr (lineage, depth), s')) = Some y"
    have ih': "\<And>a b c d r t. f a b c d = Some (Inr r, t) \<Longrightarrow> t = d"
      using ih by blast
    show "\<forall>r t. y = (Inr r, t) \<longrightarrow> t = s0"
    proof (intro allI impI)
      fix r t
      assume y: "y = (Inr r, t)"
      from body [unfolded y] show "t = s0"
        by (auto elim!: tx_bind_nodes_getE simp: Let_def split: if_splits dest: ih')
    qed
  qed
  then show ?thesis by simp
qed

lemma ancestors_loop_frame:
  assumes "ancestors_loop p lv s = Some (Inr r, s')"
  shows "s' = s"
proof -
  have "\<forall>r' t. (Inr r :: py_error + _, s') = (Inr r', t) \<longrightarrow> t = s"
  proof (rule ancestors_loop.raw_induct
      [where P = "\<lambda>p lv s y. \<forall>r t. y = (Inr r, t) \<longrightarrow> t = s", OF _ assms])
    fix f parent_id taxonomic_levels s0 y
    assume ih: "\<And>a b c y. f a b c = Some y \<Longrightarrow> \<forall>r t. y = (Inr r, t) \<longrightarrow> t = c"
      and body: "(if parent_id \<noteq> ROOT_TAXONOMY_ID
          then tx_bind (nodes_get parent_id ''rank'' s0) (\<lambda>rank s'.
               tx_bind (nodes_get parent_id ''parent'' s') (\<lambda>p s''.
                 f p (levels_add taxonomic_levels rank parent_id) s''))
          else Some (Inr taxonomic_levels, s0)) = Some y"
    have ih': "\<And>a b c r t. f a b c = Some (Inr r, t) \<Longrightarrow> t = c"
      using ih by blast
    show "\<forall>r t. y = (Inr r, t) \<longrightarrow> t = s0"
    proof (intro allI impI)
      fix r t
      assume y: "y = (Inr r, t)"
      from body [unfolded y] show "t = s0"
        by (auto elim!: tx_bind_nodes_getE split: if_splits dest: ih')
    qed
  qed
  then show ?thesis by simp
qed

lemma ascent_loop_frame:
  assumes "ascent_loop RANKS v s = Some (Inr r, s')"
  shows "s' = s"
proof -
  have "\<forall>r' t. (Inr r :: py_error + _, s') = (Inr r', t) \<longrightarrow> t = s"
  proof (rule ascent_loop.raw_induct
      [where P = "\<lambda>RANKS v s y. \<forall>r t. y = (Inr r, t) \<longrightarrow> t = s", OF _ assms])
    fix f RANKS ret_val s0 y
    assume ih: "\<And>a b c y. f a b c = Some y \<Longrightarrow> \<forall>r t. y = (Inr r, t) \<longrightarrow> t = c"
      and body: "(if ret_val \<noteq> ROOT_TAXONOMY_ID
          then tx_bind (nodes_get ret_val ''rank'' s0) (\<lambda>rank s1.
                 if rank \<in> set RANKS then Some (Inr ret_val, s1)
                 else tx_bind (nodes_get ret_val ''parent'' s1) (\<lambda>ret_val' s2.
                      tx_bind (nodes_get ret_val' ''rank'' s2) (\<lambda>lca_rank s3.
                        f RANKS ret_val' s3)))
          else Some (Inr ret_val, s0)) = Some y"
    have ih': "\<And>a b c r t. f a b c = Some (Inr r, t) \<Longrightarrow> t = c"
      using ih by blast
    show "\<forall>r t. y = (Inr r, t) \<longrightarrow> t = s0"
    proof (intro allI impI)
      fix r t
      assume y: "y = (Inr r, t)"
      from body [unfolded y] show "t = s0"
        by (auto elim!: tx_bind_nodes_getE split: if_splits dest: ih')
    qed
  qed
  then show ?thesis by simp
qed

lemma upper_level_loop_frame:
  assumes "upper_level_loop RANKS v s = Some (Inr r, s')"
  shows "s' = s"
proof -
  have "\<forall>r' t. (Inr r :: py_error + _, s') = (Inr r', t) \<longrightarrow> t = s"
  proof (rule upper_level_loop.raw_induct
      [where P = "\<lambda>RANKS v s y. \<forall>r t. y = (Inr r, t) \<longrightarrow> t = s", OF _ assms])
    fix f RANKS current_id s0 y
    assume ih: "\<And>a b c y. f a b c = Some y \<Longrightarrow> \<forall>r t. y = (Inr r, t) \<longrightarrow> t = c"
      and body: "(if current_id \<noteq> ''1''
          then tx_bind (nodes_get current_id ''parent'' s0) (\<lambda>current_id' s1.
               tx_bind (nodes_get current_id' ''rank'' s1) (\<lambda>current_rank s2.
                 if current_rank \<in> set RANKS then Some (Inr (current_id', current_rank), s2)
                 else f RANKS current_id' s2))
          else tx_bind (nodes_get ROOT_TAXONOMY_ID ''rank'' s0) (\<lambda>rank s1.
                 Some (Inr (ROOT_TAXONOMY_ID, rank), s1))) = Some y"
    have ih': "\<And>a b c r t. f a b c = Some (Inr r, t) \<Longrightarrow> t = c"
      using ih by blast
    show "\<forall>r t. y = (Inr r, t) \<longrightarrow> t = s0"
    proof (intro allI impI)
      fix r t
      assume y: "y = (Inr r, t)"
      from body [unfolded y] show "t = s0"
        by (auto elim!: tx_bind_nodes_getE split: if_splits dest: ih')
    qed
  qed
  then show ?thesis by simp
qed

lemma name_step_frame:
  assumes "(if c then (case names_get k f s of
                         (Inl e, s3) \<Rightarrow> (Inl e, s3)
                       | (Inr name, s3) \<Rightarrow> (Inr (name # lineage), s3))
            else (Inr lineage, s)) = (Inr v, s')"
  shows "s' = s"
  using assms
  by (auto split: if_splits prod.splits sum.splits dest: names_get_frame)

lemma tx_bind_stepE:
  assumes "tx_bind x g = Some (Inr r, s')"
  obtains v s1 where "x = (Inr v, s1)" "g v s1 = Some (Inr r, s')"
proof (cases x)
  case (Pair a s1)
  with assms that show ?thesis by (cases a) (simp_all add: tx_bind_def)
qed

lemma lineage_names_loop_frame:
  assumes "lineage_names_loop RANKS p l s = Some (Inr r, s')"
  shows "s' = s"
proof -
  have "\<forall>r' t. (Inr r :: py_error + _, s') = (Inr r', t) \<longrightarrow> t = s"
  proof (rule lineage_names_loop.raw_induct
      [where P = "\<lambda>RANKS p l s y. \<forall>r t. y = (Inr r, t) \<longrightarrow> t = s", OF _ assms])
    fix f RANKS parent_id lineage s0 y
    assume ih: "\<And>a b c d y. f a b c d = Some y \<Longrightarrow> \<forall>r t. y = (Inr r, t) \<longrightarrow> t = d"
      and body: "tx_bind (nodes_get parent_id ''parent'' s0) (\<lambda>p s1.
         if p \<noteq> ''1''
         then tx_bind (nodes_get parent_id ''rank'' s1) (\<lambda>rank s2.
              tx_bind (if rank \<in> set RANKS
                       then (case names_get parent_id ''name'' s2 of
                               (Inl e, s3) \<Rightarrow> (Inl e, s3)
                             | (Inr name, s3) \<Rightarrow> (Inr (name # lineage), s3))
                       else (Inr lineage, s2)) (\<lambda>lineage' s3.
                f RANKS (if names s3 p \<noteq> None then p else ''0'') lineage' s3))
         else Some (Inr lineage, s1)) = Some y"
    have ih': "\<And>a b c d r t. f a b c d = Some (Inr r, t) \<Longrightarrow> t = d"
      using ih by blast
    show "\<forall>r t. y = (Inr r, t) \<longrightarrow> t = s0"
    proof (intro allI impI)
      fix r t
      assume y: "y = (Inr r, t)"
      from body [unfolded y] obtain p where
        p: "(if p \<noteq> ''1''
         then tx_bind (nodes_get parent_id ''rank'' s0) (\<lambda>rank s2.
              tx_bind (if rank \<in> set RANKS
                       then (case names_get parent_id ''name'' s2 of
                               (Inl e, s3) \<Rightarrow> (Inl e, s3)
                             | (Inr name, s3) \<Rightarrow> (Inr (name # lineage), s3))
                       else (Inr lineage, s2)) (\<lambda>lineage' s3.
                f RANKS (if names s3 p \<noteq> None then p else ''0'') lineage' s3))
         else Some (Inr lineage, s0)) = Some (Inr r, t)"
        by (auto elim!: tx_bind_nodes_getE)
      show "t = s0"
      proof (cases "p \<noteq> ''1''")
        case False
        with p show ?thesis by simp
      next
        case True
        with p obtain rank where
          q: "tx_bind (if rank \<in> set RANKS
                       then (case names_get parent_id ''name'' s0 of
                               (Inl e, s3) \<Rightarrow> (Inl e, s3)
                             | (Inr name, s3) \<Rightarrow> (Inr (name # lineage), s3))
                       else (Inr lineage, s0)) (\<lambda>lineage' s3.
                f RANKS (if names s3 p \<noteq> None then p else ''0'') lineage' s3)
              = Some (Inr r, t)"
          by (auto elim!: tx_bind_nodes_getE)
        from q obtain v s3 where
          st: "(if rank \<in> set RANKS
                then (case names_get parent_id ''name'' s0 of
                        (Inl e, s3) \<Rightarrow> (Inl e, s3)
                      | (Inr name, s3) \<Rightarrow> (Inr (name # lineage), s3))
                else (Inr lineage, s0)) = (Inr v, s3)"
          and rec: "f RANKS (if names s3 p \<noteq> None then p else ''0'') v s3 = Some (Inr r, t)"
          by (auto elim!: tx_bind_stepE)
        from name_step_frame [OF st] have "s3 = s0" .
        with ih' [OF rec] show ?thesis by simp
      qed
    qed
  qed
  then show ?thesis by simp
qed

lemma lineages_loop_frame:
  "lineages_loop ids lins m s = Some (Inr r, s') \<Longrightarrow> s' = s"
proof (induction ids arbitrary: lins m s)
  case Nil
  then show ?case by simp
next
  case (Cons t ids)
  show ?case
  proof (cases "nodes s t \<noteq> None")
    case False
    with Cons.prems have "lineages_loop ids lins m s = Some (Inr r, s')" by simp
    then show ?thesis by (rule Cons.IH)
  next
    case True
    with Cons.prems obtain parent_id where
      a: "tx_then (lineage_loop parent_id [parent_id, t] 1 s) (\<lambda>(lineage, depth) s''.
             lineages_loop ids (lins(t \<mapsto> lineage))
               (if depth < m then depth else m) s'') = Some (Inr r, s')"
      by (auto elim!: tx_bind_nodes_getE)
    then obtain v s1 where
      b: "lineage_loop parent_id [parent_id, t] 1 s = Some (Inr v, s1)"
      and c: "(case v of (lineage, depth) \<Rightarrow> \<lambda>s''.
             lineages_loop ids (lins(t \<mapsto> lineage))
               (if depth < m then depth else m) s'') s1 = Some (Inr r, s')"
      by (erule tx_thenE)
    from lineage_loop_frame [OF b] have "s1 = s" .
    with c show ?thesis by (cases v) (auto dest: Cons.IH)
  qed
qed

lemma levels_loop_frame:
  "levels_loop ids lv s = Some (Inr r, s') \<Longrightarrow> s' = s"
proof (induction ids arbitrary: lv s)
  case Nil
  then show ?case by simp
next
  case (Cons t ids)
  show ?case
  proof (cases "t \<noteq> [] \<and> nodes s t \<noteq> None")
    case False
    with Cons.prems have "levels_loop ids lv s = Some (Inr r, s')" by (auto split: if_splits)
    then show ?thesis by (rule Cons.IH)
  next
    case True
    with Cons.prems obtain rank parent_id where
      a: "tx_then (ancestors_loop parent_id (levels_add lv rank t) s)
             (\<lambda>taxonomic_levels' s3. levels_loop ids taxonomic_levels' s3) = Some (Inr r, s')"
      by (auto elim!: tx_bind_nodes_getE)
    then obtain v s1 where
      b: "ancestors_loop parent_id (levels_add lv rank t) s = Some (Inr v, s1)"
      and c: "levels_loop ids v s1 = Some (Inr r, s')"
      by (erule tx_thenE)
    from ancestors_loop_frame [OF b] have "s1 = s" .
    with c show ?thesis by (auto dest: Cons.IH)
  qed
qed

lemma get_lca_frame: "get_lca ids s = Some (Inr r, s') \<Longrightarrow> s' = s"
  by (auto simp: get_lca_def split: if_splits prod.splits
      elim!: tx_bind_pureE tx_thenE dest: lineages_loop_frame)

lemma get_lca2_frame: "get_lca2 RANKS ids s = Some (Inr r, s') \<Longrightarrow> s' = s"
  by (auto simp: get_lca2_def split: if_splits
      elim!: tx_bind_pureE tx_thenE tx_bind_nodes_getE
      dest!: levels_loop_frame ascent_loop_frame)

lemma get_upper_level_taxon_frame:
  "get_upper_level_taxon RANKS t s = Some (Inr r, s') \<Longrightarrow> s' = s"
  by (auto simp: get_upper_level_taxon_def tx_bind_simps split: if_splits
      elim!: tx_bind_nodes_getE dest!: upper_level_loop_frame)

lemma get_taxonomy_rank_frame: "get_taxonomy_rank t s = Some (Inr r, s') \<Longrightarrow> s' = s"
  by (auto simp: get_taxonomy_rank_def split: if_splits dest: nodes_get_frame)

lemma get_lineage_string_frame:
  "get_lineage_string RANKS t s = Some (Inr r, s') \<Longrightarrow> s' = s"
  by (auto simp: get_lineage_string_def split: if_splits
      elim!: tx_bind_nodes_getE tx_bind_names_getE tx_thenE dest!: lineage_names_loop_frame)

lemma get_taxonomy_lineage_frame:
  "get_taxonomy_lineage RANKS t s = Some (Inr r, s') \<Longrightarrow> s' = s"
  by (auto simp: get_taxonomy_lineage_def split: if_splits
      elim!: tx_bind_nodes_getE tx_bind_names_getE tx_thenE dest!: lineage_names_loop_frame)


lemmas load_eval = load_taxdata_def init_taxonomy_def dmp_line_def split_def startswith_def
  rstrip_def TAB_def LINE_ENDS_def dd_set_def ROOT_TAXONOMY_ID_def UNKNOWN_TAXONOMY_ID_def Let_def

lemmas tax_eval = get_lca_def get_lca2_def get_upper_level_taxon_def get_taxonomy_rank_def
  get_lineage_string_def get_taxonomy_lineage_def lineage_text_def replace_char_def
  lineage_loop.simps ancestors_loop.simps ascent_loop.simps upper_level_loop.simps
  lineage_names_loop.simps tx_bind_def tx_then_def nodes_get_def names_get_def dd_get_def
  set_add_def set_pop_def set_of_string_def levels_get_def
  ROOT_TAXONOMY_ID_def UNKNOWN_TAXONOMY_ID_def upt_rec Let_def

text \<open>
  C9: a read operation can change the nodes table. The tables are \<^verbatim>\<open>defaultdict(dict)\<close>;
  the reads test an id with \<^verbatim>\<open>in\<close> before they subscript the table with it, except
  for the parent of a listed id in \<^verbatim>\<open>get_lca\<close>, which is subscripted unguarded. After
  \<^verbatim>\<open>load_taxdata\<close> of a dump in which node 5 names the parent 9 and 9 has no line,
  \<^verbatim>\<open>get_lca\<close> of the ids 5 and 0 reads \<^verbatim>\<open>self.nodes['9']['parent']\<close>: the table stores
  an empty entry under 9 before \<^verbatim>\<open>KeyError\<close> is raised, so the nodes table is not what it
  was before the call. The stray entry is seen by the other reads:
  \<^verbatim>\<open>get_taxonomy_rank('9')\<close> returned the unknown id before the call and raises
  \<^verbatim>\<open>KeyError\<close> after it.
\<close>

theorem read_of_missing_parent_changes_nodes:
  "load_taxdata orphan_names_lines orphan_nodes_lines [] init_taxonomy = Inr orphan_taxonomy \<and>
   get_lca [''5'', ''0''] orphan_taxonomy
     = Some (Inl KeyError,
             orphan_taxonomy\<lparr>nodes := (nodes orphan_taxonomy)(''9'' \<mapsto> Map.empty)\<rparr>) \<and>
   nodes orphan_taxonomy ''9'' = None \<and>
   nodes (orphan_taxonomy\<lparr>nodes := (nodes orphan_taxonomy)(''9'' \<mapsto> Map.empty)\<rparr>) ''9''
     = Some Map.empty \<and>
   get_taxonomy_rank ''9'' orphan_taxonomy = Some (Inr ''0'', orphan_taxonomy) \<and>
   get_taxonomy_rank ''9''
     (orphan_taxonomy\<lparr>nodes := (nodes orphan_taxonomy)(''9'' \<mapsto> Map.empty)\<rparr>)
     = Some (Inl KeyError,
             orphan_taxonomy\<lparr>nodes := (nodes orphan_taxonomy)(''9'' \<mapsto> Map.empty)\<rparr>)"
proof (intro conjI)
  show "load_taxdata orphan_names_lines orphan_nodes_lines [] init_taxonomy = Inr orphan_taxonomy"
    by (simp add: load_eval orphan_names_lines_def orphan_nodes_lines_def orphan_taxonomy_def)
  show "get_lca [''5'', ''0''] orphan_taxonomy
     = Some (Inl KeyError,
             orphan_taxonomy\<lparr>nodes := (nodes orphan_taxonomy)(''9'' \<mapsto> Map.empty)\<rparr>)"
    by (simp add: tax_eval orphan_taxonomy_def)
  show "nodes orphan_taxonomy ''9'' = None"
    by (simp add: orphan_taxonomy_def)
  show "nodes (orphan_taxonomy\<lparr>nodes := (nodes orphan_taxonomy)(''9'' \<mapsto> Map.empty)\<rparr>) ''9''
     = Some Map.empty"
    by simp
  show "get_taxonomy_rank ''9'' orphan_taxonomy = Some (Inr ''0'', orphan_taxonomy)"
    by (simp add: tax_eval orphan_taxonomy_def)
  show "get_taxonomy_rank ''9''
     (orphan_taxonomy\<lparr>nodes := (nodes orphan_taxonomy)(''9'' \<mapsto> Map.empty)\<rparr>)
     = Some (Inl KeyError,
             orphan_taxonomy\<lparr>nodes := (nodes orphan_taxonomy)(''9'' \<mapsto> Map.empty)\<rparr>)"
    by (simp add: tax_eval orphan_taxonomy_def)
qed

text \<open>
  What the reads do keep: each of the read operations that returns normally leaves the
  names and the nodes tables as they were, for every argument and every state of the
  tables; on the example tree all six return and the tables are the same afterwards.
\<close>

lemma reads_that_return_keep_tables:
  "(get_lca ids s = Some (Inr r1, s1) \<longrightarrow> names s1 = names s \<and> nodes s1 = nodes s) \<and>
   (get_lca2 RANKS ids s = Some (Inr r2, s2) \<longrightarrow> names s2 = names s \<and> nodes s2 = nodes s) \<and>
   (get_upper_level_taxon RANKS t s = Some (Inr r3, s3) \<longrightarrow>
      names s3 = names s \<and> nodes s3 = nodes s) \<and>
   (get_taxonomy_rank t s = Some (Inr r4, s4) \<longrightarrow> names s4 = names s \<and> nodes s4 = nodes s) \<and>
   (get_lineage_string RANKS t s = Some (Inr r5, s5) \<longrightarrow>
      names s5 = names s \<and> nodes s5 = nodes s) \<and>
   (get_taxonomy_lineage RANKS t s = Some (Inr r6, s6) \<longrightarrow>
      names s6 = names s \<and> nodes s6 = nodes s)"
  by (auto dest: get_lca_frame get_lca2_frame get_upper_level_taxon_frame
      get_taxonomy_rank_frame get_lineage_string_frame get_taxonomy_lineage_frame)

lemma reads_on_example_tree:
  "get_lca [''C'', ''E''] example_taxonomy = Some (Inr ''A'', example_taxonomy) \<and>
   get_lca2 example_ranks [''C'', ''E''] example_taxonomy = Some (Inr ''1'', example_taxonomy) \<and>
   get_upper_level_taxon example_ranks ''C'' example_taxonomy
     = Some (Inr (''B'', ''class''), example_taxonomy) \<and>
   get_taxonomy_rank ''C'' example_taxonomy = Some (Inr ''order'', example_taxonomy) \<and>
   get_lineage_string example_ranks ''C'' example_taxonomy
     = Some (Inr ''Beta_Gamma__c_'', example_taxonomy) \<and>
   get_taxonomy_lineage example_ranks ''C'' example_taxonomy
     = Some (Inr ''Beta_Gamma__c_'', example_taxonomy)"
  using reads_that_return_keep_tables [of "[''C'', ''E'']" example_taxonomy "''A''"
      example_taxonomy example_ranks "''1''" example_taxonomy "''C''" "(''B'', ''class'')"
      example_taxonomy "''order''" example_taxonomy "''Beta_Gamma__c_''" example_taxonomy
      "''Beta_Gamma__c_''" example_taxonomy]
  by (simp add: tax_eval example_taxonomy_def example_ranks_def)

text \<open>
  The walk of \<^verbatim>\<open>get_lca\<close> over the lineages the code builds. When the lineage loop of
  every id returns (with lineage \<open>L t\<close> and depth \<open>D t\<close>), \<^verbatim>\<open>get_lca\<close> of two or more ids
  returns, leaves the tables as they were, and gives: at the first level \<open>k\<close> (up to the
  least depth) on which the lineages differ, the common entry of level \<open>k - 1\<close>, or the
  unknown id when \<open>k = 0\<close>; and the common entry of the least depth when no level differs.
  A lineage holds the root only if the id or its parent is the root.
\<close>

lemma lineage_loop_length:
  assumes "lineage_loop p l d s = Some (Inr (l', d'), s')"
  shows "length l' + d = length l + d'"
proof -
  have "\<forall>a b t. (Inr (l', d') :: py_error + _, s') = (Inr (a, b), t) \<longrightarrow>
          length a + d = length l + b"
  proof (rule lineage_loop.raw_induct
      [where P = "\<lambda>p l d s y. \<forall>a b t. y = (Inr (a, b), t) \<longrightarrow> length a + d = length l + b",
       OF _ assms])
    fix f parent_id lineage depth s0 y
    assume ih: "\<And>p l d s y. f p l d s = Some y \<Longrightarrow>
                  \<forall>a b t. y = (Inr (a, b), t) \<longrightarrow> length a + d = length l + b"
      and body: "tx_bind (nodes_get parent_id ''parent'' s0) (\<lambda>p s'.
         if p \<noteq> ROOT_TAXONOMY_ID
         then (let parent_id' = (if names s' p \<noteq> None then p else UNKNOWN_TAXONOMY_ID)
               in f parent_id' (parent_id' # lineage) (depth + 1) s')
         else Some (Inr (lineage, depth), s')) = Some y"
    have ih': "\<And>p l d s a b t. f p l d s = Some (Inr (a, b), t) \<Longrightarrow>
                 length a + d = length l + b"
      using ih by blast
    show "\<forall>a b t. y = (Inr (a, b), t) \<longrightarrow> length a + depth = length lineage + b"
    proof (intro allI impI)
      fix a b t
      assume y: "y = (Inr (a, b), t)"
      from body [unfolded y] show "length a + depth = length lineage + b"
        by (auto elim!: tx_bind_stepE simp: Let_def split: if_splits dest!: ih')
    qed
  qed
  then show ?thesis by simp
qed

lemma depth_min_le: "depth_min D ids m \<le> m \<and> (\<forall>t\<in>set ids. depth_min D ids m \<le> D t)"
  unfolding depth_min_def
proof (induction ids arbitrary: m)
  case Nil
  then show ?case by simp
next
  case (Cons t ids)
  from Cons.IH [of "if D t < m then D t else m"] show ?case
    by (auto split: if_splits)
qed

lemma lineages_loop_result:
  assumes "\<forall>t\<in>set ids. nodes s t \<noteq> None \<and>
             (\<exists>p. nodes_get t ''parent'' s = (Inr p, s) \<and>
                  lineage_loop p [p, t] 1 s = Some (Inr (L t, D t), s))"
  shows "lineages_loop ids lins m s =
           Some (Inr (\<lambda>k. if k \<in> set ids then Some (L k) else lins k, depth_min D ids m), s)"
  using assms
proof (induction ids arbitrary: lins m)
  case Nil
  then show ?case by (simp add: depth_min_def)
next
  case (Cons t ids)
  from Cons.prems obtain p where
    p: "nodes s t \<noteq> None" "nodes_get t ''parent'' s = (Inr p, s)"
       "lineage_loop p [p, t] 1 s = Some (Inr (L t, D t), s)"
    by auto
  from Cons.prems have rest: "\<forall>t\<in>set ids. nodes s t \<noteq> None \<and>
             (\<exists>p. nodes_get t ''parent'' s = (Inr p, s) \<and>
                  lineage_loop p [p, t] 1 s = Some (Inr (L t, D t), s))"
    by simp
  have m: "(\<lambda>k. if k \<in> set ids then Some (L k) else (lins(t \<mapsto> L t)) k)
           = (\<lambda>k. if k \<in> set (t # ids) then Some (L k) else lins k)"
    by (rule ext) simp
  show ?case
    using p
    by (simp add: tx_bind_def tx_then_def Cons.IH [OF rest] m depth_min_def)
qed

lemma level_ids_result:
  assumes "\<forall>t\<in>set ids. nodes s t \<noteq> None \<and> lins t = Some (L t) \<and> i < length (L t)"
  shows "level_ids s lins i ids acc = Inr (level_set L i ids acc)"
  using assms
  by (induction ids arbitrary: acc) (simp_all add: level_set_def)

lemma level_set_set:
  "set (level_set L i ids acc) = set acc \<union> (\<lambda>t. L t ! i) ` set ids"
  unfolding level_set_def
  by (induction ids arbitrary: acc) (auto simp: set_add_def)

lemma level_set_distinct:
  "distinct acc \<Longrightarrow> distinct (level_set L i ids acc)"
  unfolding level_set_def
  by (induction ids arbitrary: acc) (auto simp: set_add_def)

lemma level_set_all_equal:
  assumes "ids \<noteq> []" "\<forall>t\<in>set ids. L t ! i = x"
  shows "level_set L i ids [] = [x]"
proof -
  from assms(1) obtain t0 where "t0 \<in> set ids" by (cases ids) auto
  with assms(2) have "(\<lambda>t. L t ! i) ` set ids = {x}" by auto
  then have s: "set (level_set L i ids []) = {x}"
    by (simp add: level_set_set)
  have d: "distinct (level_set L i ids [])" by (simp add: level_set_distinct)
  show ?thesis
  proof (cases "level_set L i ids []")
    case Nil
    with s show ?thesis by simp
  next
    case (Cons y ys)
    with s d have "y = x" "set ys \<subseteq> {x}" "y \<notin> set ys" by auto
    then have "ys = []" by (cases ys) auto
    with Cons \<open>y = x\<close> show ?thesis by simp
  qed
qed

lemma level_set_differ:
  assumes "t1 \<in> set ids" "t2 \<in> set ids" "L t1 ! i \<noteq> L t2 ! i"
  shows "length (level_set L i ids []) > 1"
proof -
  have "{L t1 ! i, L t2 ! i} \<subseteq> set (level_set L i ids [])"
    using assms by (auto simp: level_set_set)
  then have "card {L t1 ! i, L t2 ! i} \<le> card (set (level_set L i ids []))"
    by (intro card_mono) auto
  with assms(3) have "2 \<le> card (set (level_set L i ids []))" by simp
  also have "\<dots> \<le> length (level_set L i ids [])" by (rule card_length)
  finally show ?thesis by simp
qed

lemma walk_differ:
  assumes H: "\<forall>t\<in>set ids. nodes s t \<noteq> None \<and> lins t = Some (L t) \<and> n \<le> length (L t)"
    and ne: "ids \<noteq> []"
  shows "i \<le> k \<Longrightarrow> k < n \<Longrightarrow> (\<forall>j. i \<le> j \<and> j < k \<longrightarrow> levels_agree L ids j) \<Longrightarrow>
         \<not> levels_agree L ids k \<Longrightarrow>
         lca_levels s lins ids [i..<n] upper =
           (if k = i then set_pop upper else Inr (L (hd ids) ! (k - 1)))"
proof (induction "k - i" arbitrary: i upper)
  case 0
  then have ki: "k = i" by simp
  from 0 ki have "i < n" by simp
  then have up: "[i..<n] = i # [Suc i..<n]" by (simp add: upt_conv_Cons)
  from H \<open>i < n\<close> have R: "\<forall>t\<in>set ids. nodes s t \<noteq> None \<and> lins t = Some (L t) \<and> i < length (L t)"
    by auto
  from 0(5) ki obtain t where t: "t \<in> set ids" "L t ! i \<noteq> L (hd ids) ! i"
    by (auto simp: levels_agree_def)
  from ne have "hd ids \<in> set ids" by simp
  from level_set_differ [OF t(1) this t(2)] have "length (level_set L i ids []) > 1" .
  then show ?case
    by (simp add: up level_ids_result [OF R] ki)
next
  case (Suc d)
  then have ik: "i < k" by simp
  with Suc have "i < n" by simp
  then have up: "[i..<n] = i # [Suc i..<n]" by (simp add: upt_conv_Cons)
  from H \<open>i < n\<close> have R: "\<forall>t\<in>set ids. nodes s t \<noteq> None \<and> lins t = Some (L t) \<and> i < length (L t)"
    by auto
  from Suc.prems(3) ik have "levels_agree L ids i" by simp
  then have "\<forall>t\<in>set ids. L t ! i = L (hd ids) ! i" by (simp add: levels_agree_def)
  from level_set_all_equal [OF ne this] have ls: "level_set L i ids [] = [L (hd ids) ! i]" .
  have d: "d = k - Suc i" using Suc.hyps(2) by simp
  have rec: "lca_levels s lins ids [Suc i..<n] [L (hd ids) ! i] =
          (if k = Suc i then set_pop [L (hd ids) ! i] else Inr (L (hd ids) ! (k - 1)))"
    using Suc.hyps(1) [OF d, of "[L (hd ids) ! i]"] ik Suc.prems by simp
  show ?case
    using ik by (auto simp add: up level_ids_result [OF R] ls rec set_pop_def)
qed

lemma walk_agree:
  assumes H: "\<forall>t\<in>set ids. nodes s t \<noteq> None \<and> lins t = Some (L t) \<and> n \<le> length (L t)"
    and ne: "ids \<noteq> []"
  shows "i < n \<Longrightarrow> (\<forall>j. i \<le> j \<and> j < n \<longrightarrow> levels_agree L ids j) \<Longrightarrow>
         lca_levels s lins ids [i..<n] upper = Inr (L (hd ids) ! (n - 1))"
proof (induction "n - i" arbitrary: i upper)
  case 0
  then show ?case by simp
next
  case (Suc d)
  from Suc.prems have up: "[i..<n] = i # [Suc i..<n]" by (simp add: upt_conv_Cons)
  from H Suc.prems have R: "\<forall>t\<in>set ids. nodes s t \<noteq> None \<and> lins t = Some (L t) \<and> i < length (L t)"
    by auto
  from Suc.prems have "levels_agree L ids i" by simp
  then have "\<forall>t\<in>set ids. L t ! i = L (hd ids) ! i" by (simp add: levels_agree_def)
  from level_set_all_equal [OF ne this] have ls: "level_set L i ids [] = [L (hd ids) ! i]" .
  show ?case
  proof (cases "Suc i < n")
    case True
    have d: "d = n - Suc i" using Suc.hyps(2) by simp
    have "lca_levels s lins ids [Suc i..<n] [L (hd ids) ! i] = Inr (L (hd ids) ! (n - 1))"
      using Suc.hyps(1) [OF d True, of "[L (hd ids) ! i]"] Suc.prems by simp
    then show ?thesis by (simp add: up level_ids_result [OF R] ls)
  next
    case False
    with Suc.prems have n: "n = Suc i" by simp
    then show ?thesis
      by (simp add: level_ids_result [OF R] ls set_pop_def)
  qed
qed

lemma get_lca_walk:
  assumes len: "2 \<le> length ids"
    and lin: "\<forall>t\<in>set ids. \<exists>p. nodes_get t ''parent'' s = (Inr p, s) \<and>
                lineage_loop p [p, t] 1 s = Some (Inr (L t, D t), s)"
  shows "(k \<le> depth_min D ids 1000 \<and> (\<forall>j<k. levels_agree L ids j) \<and> \<not> levels_agree L ids k \<longrightarrow>
            get_lca ids s
            = Some (Inr (if k = 0 then UNKNOWN_TAXONOMY_ID else L (hd ids) ! (k - 1)), s)) \<and>
         ((\<forall>j\<le>depth_min D ids 1000. levels_agree L ids j) \<longrightarrow>
            get_lca ids s = Some (Inr (L (hd ids) ! depth_min D ids 1000), s))"
proof -
  let ?M = "depth_min D ids 1000"
  let ?lins = "\<lambda>k. if k \<in> set ids then Some (L k) else None"
  from len have ne: "ids \<noteq> []" and l1: "length ids \<noteq> 1" by auto
  have inn: "\<forall>t\<in>set ids. nodes s t \<noteq> None"
  proof
    fix t assume "t \<in> set ids"
    with lin obtain p where "nodes_get t ''parent'' s = (Inr p, s)" by blast
    then show "nodes s t \<noteq> None"
      by (auto simp: nodes_get_def dd_get_def split: option.splits)
  qed
  have ll: "lineages_loop ids Map.empty 1000 s = Some (Inr (?lins, ?M), s)"
    using lineages_loop_result [of ids s L D Map.empty 1000] lin inn by simp
  have lens: "\<forall>t\<in>set ids. length (L t) = D t + 1"
  proof
    fix t assume "t \<in> set ids"
    with lin obtain p where "lineage_loop p [p, t] 1 s = Some (Inr (L t, D t), s)" by blast
    from lineage_loop_length [OF this] show "length (L t) = D t + 1" by simp
  qed
  have H: "\<forall>t\<in>set ids. nodes s t \<noteq> None \<and> ?lins t = Some (L t) \<and> ?M + 1 \<le> length (L t)"
    using inn lens depth_min_le [of D ids 1000] by auto
  have g: "get_lca ids s
           = Some (lca_levels s ?lins ids [0..<?M + 1] (set_of_string UNKNOWN_TAXONOMY_ID), s)"
    using l1 by (simp add: get_lca_def ll tx_then_def tx_bind_def)
  have pop: "set_pop (set_of_string UNKNOWN_TAXONOMY_ID) = Inr UNKNOWN_TAXONOMY_ID"
    by (simp add: set_pop_def set_of_string_def UNKNOWN_TAXONOMY_ID_def)
  show ?thesis
  proof (intro conjI impI)
    assume a: "k \<le> ?M \<and> (\<forall>j<k. levels_agree L ids j) \<and> \<not> levels_agree L ids k"
    have "lca_levels s ?lins ids [0..<?M + 1] (set_of_string UNKNOWN_TAXONOMY_ID)
          = (if k = 0 then set_pop (set_of_string UNKNOWN_TAXONOMY_ID)
             else Inr (L (hd ids) ! (k - 1)))"
      using walk_differ [OF H ne, of 0 k "set_of_string UNKNOWN_TAXONOMY_ID"] a by auto
    then show "get_lca ids s
            = Some (Inr (if k = 0 then UNKNOWN_TAXONOMY_ID else L (hd ids) ! (k - 1)), s)"
      by (simp add: g pop)
  next
    assume a: "\<forall>j\<le>?M. levels_agree L ids j"
    have "lca_levels s ?lins ids [0..<?M + 1] (set_of_string UNKNOWN_TAXONOMY_ID)
          = Inr (L (hd ids) ! (?M + 1 - 1))"
      using walk_agree [OF H ne, of 0 "set_of_string UNKNOWN_TAXONOMY_ID"] a by auto
    then show "get_lca ids s = Some (Inr (L (hd ids) ! ?M), s)"
      by (simp add: g)
  qed
qed

lemma lineage_loop_root_free:
  assumes "lineage_loop p l d s = Some (Inr (l', d'), s')"
  shows "ROOT_TAXONOMY_ID \<in> set l' \<longrightarrow> ROOT_TAXONOMY_ID \<in> set l"
proof -
  have "\<forall>a b t. (Inr (l', d') :: py_error + _, s') = (Inr (a, b), t) \<longrightarrow>
          (ROOT_TAXONOMY_ID \<in> set a \<longrightarrow> ROOT_TAXONOMY_ID \<in> set l)"
  proof (rule lineage_loop.raw_induct
      [where P = "\<lambda>p l d s y. \<forall>a b t. y = (Inr (a, b), t) \<longrightarrow>
                    (ROOT_TAXONOMY_ID \<in> set a \<longrightarrow> ROOT_TAXONOMY_ID \<in> set l)",
       OF _ assms])
    fix f parent_id lineage depth s0 y
    assume ih: "\<And>p l d s y. f p l d s = Some y \<Longrightarrow>
                  \<forall>a b t. y = (Inr (a, b), t) \<longrightarrow>
                    (ROOT_TAXONOMY_ID \<in> set a \<longrightarrow> ROOT_TAXONOMY_ID \<in> set l)"
      and body: "tx_bind (nodes_get parent_id ''parent'' s0) (\<lambda>p s'.
         if p \<noteq> ROOT_TAXONOMY_ID
         then (let parent_id' = (if names s' p \<noteq> None then p else UNKNOWN_TAXONOMY_ID)
               in f parent_id' (parent_id' # lineage) (depth + 1) s')
         else Some (Inr (lineage, depth), s')) = Some y"
    have ih': "\<And>p l d s a b t. f p l d s = Some (Inr (a, b), t) \<Longrightarrow>
                 ROOT_TAXONOMY_ID \<in> set a \<Longrightarrow> ROOT_TAXONOMY_ID \<in> set l"
      using ih by blast
    show "\<forall>a b t. y = (Inr (a, b), t) \<longrightarrow>
            (ROOT_TAXONOMY_ID \<in> set a \<longrightarrow> ROOT_TAXONOMY_ID \<in> set lineage)"
    proof (intro allI impI)
      fix a b t
      assume y: "y = (Inr (a, b), t)" and r: "ROOT_TAXONOMY_ID \<in> set a"
      from body [unfolded y] r show "ROOT_TAXONOMY_ID \<in> set lineage"
        by (auto elim!: tx_bind_stepE simp: Let_def ROOT_TAXONOMY_ID_def UNKNOWN_TAXONOMY_ID_def
            split: if_splits dest!: ih')
    qed
  qed
  then show ?thesis by simp
qed


text \<open>
  C5 on the tree of the specification (root, A, B, C and root, A, D, E), loaded by
  \<^verbatim>\<open>load_taxdata\<close>: the lowest common ancestor of C and E is A, as the claim says. For a
  child of the root the lineage is not root-exclusive: the lineage of A is root, A, while
  that of its child B is A, B. The walk compares root with A at depth 0, finds them
  different, and returns the unknown id 0 for the ids A and B, although every level of
  the shorter root-exclusive lineage agrees and the claim's walk ends at A. Apart from
  the lineage of a child of the root, the walk is the one the claim describes (lemmas
  \<open>get_lca_walk\<close> and \<open>lineage_loop_root_free\<close> above).
\<close>

theorem get_lca_child_of_root:
  "load_taxdata example_names_lines example_nodes_lines [] init_taxonomy = Inr example_taxonomy \<and>
   get_lca [''C'', ''E''] example_taxonomy = Some (Inr ''A'', example_taxonomy) \<and>
   lineage_loop ''1'' [''1'', ''A''] 1 example_taxonomy
     = Some (Inr ([''1'', ''A''], 1), example_taxonomy) \<and>
   lineage_loop ''A'' [''A'', ''B''] 1 example_taxonomy
     = Some (Inr ([''A'', ''B''], 1), example_taxonomy) \<and>
   get_lca [''A'', ''B''] example_taxonomy = Some (Inr UNKNOWN_TAXONOMY_ID, example_taxonomy)"
proof (intro conjI)
  show "load_taxdata example_names_lines example_nodes_lines [] init_taxonomy
        = Inr example_taxonomy"
    by (simp add: load_eval example_names_lines_def example_nodes_lines_def
        example_taxonomy_def)
  show "get_lca [''C'', ''E''] example_taxonomy = Some (Inr ''A'', example_taxonomy)"
    by (simp add: tax_eval example_taxonomy_def)
  show "lineage_loop ''1'' [''1'', ''A''] 1 example_taxonomy
     = Some (Inr ([''1'', ''A''], 1), example_taxonomy)"
    by (simp add: tax_eval example_taxonomy_def)
  show "lineage_loop ''A'' [''A'', ''B''] 1 example_taxonomy
     = Some (Inr ([''A'', ''B''], 1), example_taxonomy)"
    by (simp add: tax_eval example_taxonomy_def)
  show "get_lca [''A'', ''B''] example_taxonomy = Some (Inr UNKNOWN_TAXONOMY_ID, example_taxonomy)"
    by (simp add: tax_eval example_taxonomy_def)
qed

end
